theory Spec2Isabelle
  imports Complex_Main "HOL-Library.AList"
begin

section \<open>Values shared by the modules\<close>

text \<open>
  Times are JavaScript numbers holding milliseconds since the epoch (\<open>Date.now()\<close>);
  they are modelled as integers. Every asynchronous function of the source becomes a
  function from the state it reads to its result and the state it leaves; a rejected
  promise (a \<open>throw\<close>) is the left injection of a sum.
\<close>

text \<open>
  The error objects of the code base: a plain \<open>Error(message)\<close> (also what the platform
  raises: \<open>TypeError\<close>, \<open>SyntaxError\<close>), \<open>RealDebridApiError(message, status, code?)\<close> of
  the API client and \<open>OAuthError(message, code?)\<close> of \<open>lib/auth.ts\<close>.
\<close>

datatype thrown =
    Error string
  | RealDebridApiError string nat "int option"
  | OAuthError string "string option"

fun message :: "thrown \<Rightarrow> string" where
  "message (Error m) = m"
| "message (RealDebridApiError m st c) = m"
| "message (OAuthError m c) = m"

text \<open>\<open>String(n)\<close> for an integer \<open>n\<close>: the decimal digits, with a minus sign below zero.\<close>

definition digit_char :: "nat \<Rightarrow> char" where
  "digit_char d = ''0123456789'' ! d"

function string_of_nat :: "nat \<Rightarrow> string" where
  "string_of_nat n =
     (if n < 10 then [digit_char n] else string_of_nat (n div 10) @ [digit_char (n mod 10)])"
  by pat_completeness auto
termination
  by (relation "measure (\<lambda>n. n)") auto

declare string_of_nat.simps [simp del]

definition string_of_int :: "int \<Rightarrow> string" where
  "string_of_int i = (if i < 0 then CHR ''-'' # string_of_nat (nat (- i)) else string_of_nat (nat i))"

section \<open>Credentials and the persistent store (\<open>lib/auth.ts\<close>, \<open>lib/storage.ts\<close>)\<close>

text \<open>
  \<open>AuthData\<close>. The field \<open>expiresAt\<close> is declared a number; \<open>isTokenExpired\<close> also
  expects it unset, which is \<open>None\<close> here.
\<close>

record AuthData =
  accessToken :: string
  refreshToken :: string
  clientId :: string
  clientSecret :: string
  expiresAt :: "int option"

record TokenResponse =
  access_token :: string
  expires_in :: int
  token_type :: string
  refresh_token :: string

text \<open>
  \<open>isTokenExpired(authData)\<close> read at clock \<open>now\<close>: an unset or zero expiry never expires.
\<close>

definition isTokenExpired :: "int \<Rightarrow> AuthData \<Rightarrow> bool" where
  "isTokenExpired now authData =
     (case expiresAt authData of
        None \<Rightarrow> False
      | Some e \<Rightarrow> if e = 0 then False else now \<ge> e)"

datatype Theme = light | dark | system

record UserPreferences =
  notificationsEnabled :: bool
  autoUnrestrict :: bool
  autoSelectFiles :: bool
  autoScanEnabled :: bool
  downloadDirectory :: "string option"
  theme :: Theme

text \<open>What is kept under the key \<open>preferences\<close>: any subset of the fields.\<close>

record StoredPreferences =
  stored_notificationsEnabled :: "bool option"
  stored_autoUnrestrict :: "bool option"
  stored_autoSelectFiles :: "bool option"
  stored_autoScanEnabled :: "bool option"
  stored_downloadDirectory :: "string option"
  stored_theme :: "Theme option"

definition DEFAULT_PREFERENCES :: UserPreferences where
  "DEFAULT_PREFERENCES =
     \<lparr> notificationsEnabled = True, autoUnrestrict = False, autoSelectFiles = True,
       autoScanEnabled = False, downloadDirectory = None, theme = system \<rparr>"

record UserProfile =
  profile_id :: int
  username :: string
  email :: string
  points :: int
  locale_code :: string
  avatar :: string
  premium_type :: string
  premium :: int
  expiration :: string

record CachedData =
  userProfile :: "UserProfile option"
  userProfileTimestamp :: "int option"
  supportedDomains :: "string list option"
  supportedDomainsTimestamp :: "int option"
  hostsRegex :: "string list option"
  hostsRegexTimestamp :: "int option"

definition empty_cache :: CachedData where
  "empty_cache =
     \<lparr> userProfile = None, userProfileTimestamp = None, supportedDomains = None,
       supportedDomainsTimestamp = None, hostsRegex = None, hostsRegexTimestamp = None \<rparr>"

definition CACHE_TTL :: int where
  "CACHE_TTL = 5 * 60 * 1000"

text \<open>
  The extension's key-value store has two areas. \<open>authStorage\<close> and \<open>cacheStorage\<close> are
  both \<open>new Storage({ area: "local" })\<close>, so they are one map; \<open>syncStorage\<close> is the
  other. \<open>remove\<close> deletes a key of its area and \<open>set\<close> overwrites it.
\<close>

datatype stored = StoredAuth AuthData | StoredPrefs StoredPreferences | StoredCache CachedData

record Storage =
  local_area :: "string \<rightharpoonup> stored"
  sync_area :: "string \<rightharpoonup> stored"

definition AUTH_DATA :: string where "AUTH_DATA = ''authData''"
definition PREFERENCES :: string where "PREFERENCES = ''preferences''"
definition CACHE :: string where "CACHE = ''cache''"

definition getAuthData :: "Storage \<Rightarrow> AuthData option" where
  "getAuthData st =
     (case local_area st AUTH_DATA of Some (StoredAuth a) \<Rightarrow> Some a | _ \<Rightarrow> None)"

definition setAuthData :: "AuthData \<Rightarrow> Storage \<Rightarrow> Storage" where
  "setAuthData authData st = st\<lparr> local_area := (local_area st)(AUTH_DATA \<mapsto> StoredAuth authData) \<rparr>"

definition clearCache :: "Storage \<Rightarrow> Storage" where
  "clearCache st = st\<lparr> local_area := (local_area st)(CACHE := None) \<rparr>"

definition removeAuthData :: "Storage \<Rightarrow> Storage" where
  "removeAuthData st = clearCache (st\<lparr> local_area := (local_area st)(AUTH_DATA := None) \<rparr>)"

definition getToken :: "Storage \<Rightarrow> string option" where
  "getToken st = (case getAuthData st of None \<Rightarrow> None | Some a \<Rightarrow> Some (accessToken a))"

text \<open>\<open>authData !== null && !!authData.accessToken\<close>: the empty string is falsy.\<close>

definition isAuthenticated :: "Storage \<Rightarrow> bool" where
  "isAuthenticated st = (case getAuthData st of None \<Rightarrow> False | Some a \<Rightarrow> accessToken a \<noteq> [])"

text \<open>\<open>{ ...DEFAULT_PREFERENCES, ...prefs }\<close>: a stored field overrides the default.\<close>

definition merge_preferences :: "UserPreferences \<Rightarrow> StoredPreferences \<Rightarrow> UserPreferences" where
  "merge_preferences d p =
     \<lparr> notificationsEnabled = (case stored_notificationsEnabled p of None \<Rightarrow> notificationsEnabled d | Some b \<Rightarrow> b),
       autoUnrestrict = (case stored_autoUnrestrict p of None \<Rightarrow> autoUnrestrict d | Some b \<Rightarrow> b),
       autoSelectFiles = (case stored_autoSelectFiles p of None \<Rightarrow> autoSelectFiles d | Some b \<Rightarrow> b),
       autoScanEnabled = (case stored_autoScanEnabled p of None \<Rightarrow> autoScanEnabled d | Some b \<Rightarrow> b),
       downloadDirectory = (case stored_downloadDirectory p of None \<Rightarrow> downloadDirectory d | Some x \<Rightarrow> Some x),
       theme = (case stored_theme p of None \<Rightarrow> theme d | Some t \<Rightarrow> t) \<rparr>"

definition getPreferences :: "Storage \<Rightarrow> UserPreferences" where
  "getPreferences st =
     (case sync_area st PREFERENCES of
        Some (StoredPrefs p) \<Rightarrow> merge_preferences DEFAULT_PREFERENCES p
      | _ \<Rightarrow> DEFAULT_PREFERENCES)"

definition getCache :: "Storage \<Rightarrow> CachedData" where
  "getCache st = (case local_area st CACHE of Some (StoredCache c) \<Rightarrow> c | _ \<Rightarrow> empty_cache)"

text \<open>
  The three cache readers test \<open>value && timestamp && Date.now() - timestamp < CACHE_TTL\<close>:
  an object or an array is truthy when present, a timestamp when present and not zero.
\<close>

definition getCachedUserProfile :: "int \<Rightarrow> Storage \<Rightarrow> UserProfile option" where
  "getCachedUserProfile now st =
     (let cache = getCache st in
      case (userProfile cache, userProfileTimestamp cache) of
        (Some v, Some ts) \<Rightarrow> if ts \<noteq> 0 \<and> now - ts < CACHE_TTL then Some v else None
      | _ \<Rightarrow> None)"

definition getCachedDomains :: "int \<Rightarrow> Storage \<Rightarrow> string list option" where
  "getCachedDomains now st =
     (let cache = getCache st in
      case (supportedDomains cache, supportedDomainsTimestamp cache) of
        (Some v, Some ts) \<Rightarrow> if ts \<noteq> 0 \<and> now - ts < CACHE_TTL then Some v else None
      | _ \<Rightarrow> None)"

definition getCachedHostsRegex :: "int \<Rightarrow> Storage \<Rightarrow> string list option" where
  "getCachedHostsRegex now st =
     (let cache = getCache st in
      case (hostsRegex cache, hostsRegexTimestamp cache) of
        (Some v, Some ts) \<Rightarrow> if ts \<noteq> 0 \<and> now - ts < CACHE_TTL then Some v else None
      | _ \<Rightarrow> None)"

section \<open>The token lifecycle (\<open>getValidToken\<close> of the background script)\<close>

text \<open>
  What one call of \<open>getValidToken\<close> meets outside the program: the clock when the expiry
  is tested, the answer of the token endpoint to \<open>refreshAccessToken(clientId,
  clientSecret, refreshToken)\<close>, and the clock when the new expiry is computed.
\<close>

record TokenEnv =
  dateNow :: int
  refreshAccessToken :: "string \<Rightarrow> string \<Rightarrow> string \<Rightarrow> thrown + TokenResponse"
  dateNowAfterRefresh :: int

definition getValidToken :: "'e TokenEnv_scheme \<Rightarrow> Storage \<Rightarrow> (thrown + string) \<times> Storage" where
  "getValidToken env st =
     (case getAuthData st of
        None \<Rightarrow> (Inl (Error ''Not authenticated''), st)
      | Some authData \<Rightarrow>
          if isTokenExpired (dateNow env) authData then
            (case refreshAccessToken env (clientId authData) (clientSecret authData) (refreshToken authData) of
               Inr tokenResponse \<Rightarrow>
                 (let updatedAuthData = authData
                        \<lparr> accessToken := access_token tokenResponse,
                          refreshToken := refresh_token tokenResponse,
                          expiresAt := Some (dateNowAfterRefresh env + expires_in tokenResponse * 1000) \<rparr>
                  in (Inr (accessToken updatedAuthData), setAuthData updatedAuthData st))
             | Inl err \<Rightarrow>
                 (Inl (Error ''Session expired. Please log in again.''), removeAuthData st))
          else (Inr (accessToken authData), st))"

section \<open>Torrent polling (the background script)\<close>

datatype TorrentStatus =
    magnet_error
  | magnet_conversion
  | waiting_files_selection
  | queued
  | downloading
  | downloaded
  | error
  | virus
  | compressing
  | uploading
  | dead

text \<open>
  \<open>TorrentItem\<close>: the fields the background script reads. The other fields of the
  interface ride in the record's extension; the functions below accept any extension.
\<close>

record TorrentItem =
  torrent_id :: string
  filename :: string
  status :: TorrentStatus

definition POLLING_ALARM_NAME :: string where
  "POLLING_ALARM_NAME = ''torrent-polling''"

definition POLLING_INTERVAL_MINUTES :: rat where
  "POLLING_INTERVAL_MINUTES = 1 / 2"

definition BADGE_COLOR :: string where
  "BADGE_COLOR = ''#B7D995''"

definition ACTIVE_STATUSES :: "TorrentStatus list" where
  "ACTIVE_STATUSES = [magnet_conversion, queued, downloading, compressing, uploading]"

definition isActiveTorrent :: "TorrentStatus \<Rightarrow> bool" where
  "isActiveTorrent st = (st \<in> set ACTIVE_STATUSES)"

text \<open>
  The calls the background script makes on the browser, in the order it makes them.
  \<open>NotificationCreate id title message\<close> is \<open>chrome.notifications.create\<close> with an
  identifier, \<open>NotificationCreateUnnamed title message\<close> the same without one; the
  \<open>SetTab\<close> calls carry a \<open>tabId\<close>; \<open>AlarmCreate name periodInMinutes\<close> is
  \<open>chrome.alarms.create\<close>.
\<close>

datatype effect =
    SetBadgeText string
  | SetBadgeBackgroundColor string
  | SetTabBadgeText string nat
  | SetTabBadgeBackgroundColor string nat
  | NotificationCreate string string string
  | NotificationCreateUnnamed string string
  | AlarmCreate string rat
  | AlarmClear string
  | ConsoleError string

text \<open>
  The state of the background script: the store, the module variable \<open>knownTorrents\<close>
  (a \<open>Map\<close>, kept in insertion order as an association list), the browser's alarms by
  name, and the log of calls made on the browser. \<open>pollCalls\<close> counts the entries into
  \<open>pollTorrents\<close>; it is bookkeeping of the model that no function reads.
\<close>

record Background =
  storage :: Storage
  knownTorrents :: "(string \<times> TorrentStatus) list"
  alarms :: "string \<rightharpoonup> rat"
  effects :: "effect list"
  pollCalls :: nat

text \<open>
  What a poll meets outside the program, besides the token's environment: whether
  \<open>chrome.alarms\<close> exists, and the answer of \<open>listTorrents(token, { limit })\<close>.
\<close>

record PollEnv = TokenEnv +
  hasAlarmsSupport :: bool
  listTorrents :: "string \<Rightarrow> nat \<Rightarrow> thrown + TorrentItem list"

definition getActiveTorrentCount :: "Background \<Rightarrow> nat" where
  "getActiveTorrentCount s = length (filter isActiveTorrent (map snd (knownTorrents s)))"

definition updateBadge :: "nat \<Rightarrow> Background \<Rightarrow> Background" where
  "updateBadge activeCount s =
     (if activeCount > 0
      then s\<lparr> effects := effects s @
                [SetBadgeText (string_of_nat activeCount), SetBadgeBackgroundColor BADGE_COLOR] \<rparr>
      else s\<lparr> effects := effects s @ [SetBadgeText []] \<rparr>)"

text \<open>
  \<open>showTorrentCompletedNotification\<close>: nothing is done when notifications are disabled in
  the preferences. The body stands in a \<open>try\<close> whose \<open>catch\<close> is empty, so the log of calls is
  the same whether or not the browser accepts the notification.
\<close>

definition showTorrentCompletedNotification :: "'t TorrentItem_scheme \<Rightarrow> Background \<Rightarrow> Background" where
  "showTorrentCompletedNotification torrent s =
     (let preferences = getPreferences (storage s) in
      if \<not> notificationsEnabled preferences then s
      else
        (let notificationId = ''torrent-completed-'' @ torrent_id torrent in
         s\<lparr> effects := effects s @
               [NotificationCreate notificationId ''Torrent Download Complete'' (filename torrent)] \<rparr>))"

definition stopPolling :: "'e PollEnv_scheme \<Rightarrow> Background \<Rightarrow> Background" where
  "stopPolling env s =
     (if \<not> hasAlarmsSupport env then s
      else updateBadge 0
             (s\<lparr> alarms := (alarms s)(POLLING_ALARM_NAME := None),
                 effects := effects s @ [AlarmClear POLLING_ALARM_NAME] \<rparr>))"

text \<open>
  The first loop of \<open>pollTorrents\<close>, over the fetched listing: it carries the state, the
  running \<open>activeCount\<close> and the set \<open>currentTorrentIds\<close>.
\<close>

fun processTorrents ::
  "'t TorrentItem_scheme list \<Rightarrow> Background \<Rightarrow> nat \<Rightarrow> string set \<Rightarrow> Background \<times> nat \<times> string set" where
  "processTorrents [] s activeCount currentTorrentIds = (s, activeCount, currentTorrentIds)"
| "processTorrents (torrent # rest) s activeCount currentTorrentIds =
     (let currentTorrentIds' = insert (torrent_id torrent) currentTorrentIds;
          previousStatus = map_of (knownTorrents s) (torrent_id torrent);
          s1 = (if previousStatus \<noteq> None \<and> previousStatus \<noteq> Some downloaded \<and> status torrent = downloaded
                then showTorrentCompletedNotification torrent s else s);
          s2 = s1\<lparr> knownTorrents := AList.update (torrent_id torrent) (status torrent) (knownTorrents s1) \<rparr>;
          activeCount' = (if isActiveTorrent (status torrent) then activeCount + 1 else activeCount)
      in processTorrents rest s2 activeCount' currentTorrentIds')"

text \<open>
  The second loop: \<open>for (const id of knownTorrents.keys()) if (!currentTorrentIds.has(id))
  knownTorrents.delete(id)\<close>.
\<close>

definition pruneKnownTorrents :: "string set \<Rightarrow> (string \<times> TorrentStatus) list \<Rightarrow> (string \<times> TorrentStatus) list" where
  "pruneKnownTorrents currentTorrentIds known =
     fold (\<lambda>i m. if i \<notin> currentTorrentIds then AList.delete i m else m) (map fst known) known"

text \<open>
  \<open>pollTorrents\<close>. Whatever is thrown after the authentication test (by \<open>getValidToken\<close> or
  by the listing's fetch) is caught at the end and logged; nothing else is undone.
\<close>

definition pollTorrents :: "'e PollEnv_scheme \<Rightarrow> Background \<Rightarrow> Background" where
  "pollTorrents env s0 =
     (let s = s0\<lparr> pollCalls := pollCalls s0 + 1 \<rparr> in
      if \<not> isAuthenticated (storage s) then stopPolling env s
      else
        (case getValidToken env (storage s) of
           (Inl err, st1) \<Rightarrow>
             s\<lparr> storage := st1, effects := effects s @ [ConsoleError ''Error polling torrents:''] \<rparr>
         | (Inr token, st1) \<Rightarrow>
             (case listTorrents env token 100 of
                Inl err \<Rightarrow>
                  s\<lparr> storage := st1, effects := effects s @ [ConsoleError ''Error polling torrents:''] \<rparr>
              | Inr torrents \<Rightarrow>
                  (case processTorrents torrents (s\<lparr> storage := st1 \<rparr>) 0 {} of
                     (s2, activeCount, currentTorrentIds) \<Rightarrow>
                       (let s3 = s2\<lparr> knownTorrents := pruneKnownTorrents currentTorrentIds (knownTorrents s2) \<rparr>;
                            s4 = updateBadge activeCount s3
                        in if activeCount = 0 then stopPolling env s4 else s4)))))"

text \<open>
  \<open>startPolling\<close>: without alarm support it returns at once; when the alarm exists it
  returns before polling; otherwise it polls once and creates the alarm.
\<close>

definition startPolling :: "'e PollEnv_scheme \<Rightarrow> Background \<Rightarrow> Background" where
  "startPolling env s =
     (if \<not> hasAlarmsSupport env then s
      else
        (case alarms s POLLING_ALARM_NAME of
           Some existingAlarm \<Rightarrow> s
         | None \<Rightarrow>
             (let s1 = pollTorrents env s in
              s1\<lparr> alarms := (alarms s1)(POLLING_ALARM_NAME \<mapsto> POLLING_INTERVAL_MINUTES),
                  effects := effects s1 @ [AlarmCreate POLLING_ALARM_NAME POLLING_INTERVAL_MINUTES] \<rparr>)))"

text \<open>The completion notifications among logged calls, for one job identifier.\<close>

fun is_completion_of :: "string \<Rightarrow> effect \<Rightarrow> bool" where
  "is_completion_of j (NotificationCreate nid title msg) = (nid = ''torrent-completed-'' @ j)"
| "is_completion_of j other = False"

definition completion_notifications :: "string \<Rightarrow> effect list \<Rightarrow> nat" where
  "completion_notifications j es = length (filter (is_completion_of j) es)"

section \<open>The API client: rate limit and \<open>request\<close>\<close>

definition BASE_URL :: string where
  "BASE_URL = ''https://api.real-debrid.com/rest/1.0''"

definition RATE_LIMIT :: int where
  "RATE_LIMIT = 250"

definition RATE_WINDOW_MS :: int where
  "RATE_WINDOW_MS = 60000"

record RateLimitStatus =
  remaining :: int
  resetInMs :: int

text \<open>
  The module variable \<open>requestTimestamps\<close> is passed in and returned.
  \<open>getRateLimitStatus\<close> read at clock \<open>now\<close>: \<open>requestTimestamps[0]\<close> is undefined on the
  empty array and falsy when it is \<open>0\<close>.
\<close>

definition getRateLimitStatus :: "int \<Rightarrow> int list \<Rightarrow> RateLimitStatus \<times> int list" where
  "getRateLimitStatus now requestTimestamps =
     (let kept = filter (\<lambda>ts. now - ts < RATE_WINDOW_MS) requestTimestamps;
          reset = (case kept of
                     [] \<Rightarrow> 0
                   | oldestTimestamp # later \<Rightarrow>
                       if oldestTimestamp \<noteq> 0 then RATE_WINDOW_MS - (now - oldestTimestamp) else 0)
      in (\<lparr> remaining = RATE_LIMIT - int (length kept), resetInMs = max 0 reset \<rparr>, kept))"

definition trackRequest :: "int \<Rightarrow> int list \<Rightarrow> int list" where
  "trackRequest now requestTimestamps =
     filter (\<lambda>ts. now - ts < RATE_WINDOW_MS) requestTimestamps @ [now]"

text \<open>
  \<open>waitForRateLimit\<close>: the delay handed to \<open>setTimeout\<close> when the budget is used up, and the
  cleaned array. The wait is made once; nothing is tested again after it.
\<close>

definition waitForRateLimit :: "int \<Rightarrow> int list \<Rightarrow> int option \<times> int list" where
  "waitForRateLimit now requestTimestamps =
     (case getRateLimitStatus now requestTimestamps of
        (st, kept) \<Rightarrow> (if remaining st \<le> 0 then Some (resetInMs st + 100) else None, kept))"

datatype HttpMethod = GET | POST | PUT | DELETE

text \<open>The property values found in request bodies, and \<open>String(value)\<close>.\<close>

datatype jsvalue = JUndefined | JNull | JString string | JNumber int | JBoolean bool

fun js_String :: "jsvalue \<Rightarrow> string" where
  "js_String JUndefined = ''undefined''"
| "js_String JNull = ''null''"
| "js_String (JString s) = s"
| "js_String (JNumber n) = string_of_int n"
| "js_String (JBoolean b) = (if b then ''true'' else ''false'')"

text \<open>
  A body is a \<open>FormData\<close> (named parts), an object (its entries in the order of
  \<open>Object.entries\<close>) or some other value, \<open>null\<close> among them.
\<close>

datatype RequestBody =
    FormDataBody "(string \<times> string) list"
  | ObjectBody "(string \<times> jsvalue) list"
  | PrimitiveBody jsvalue

record RequestOptions =
  http_method :: HttpMethod
  path :: string
  body :: "RequestBody option"
  token :: "string option"
  skipAuth :: bool

datatype FetchBody = FormDataPayload "(string \<times> string) list" | TextPayload string

record FetchOptions =
  fetch_method :: HttpMethod
  fetch_headers :: "(string \<times> string) list"
  fetch_body :: "FetchBody option"

text \<open>
  \<open>URLSearchParams.toString()\<close>, the browser's serializer of
  \<open>application/x-www-form-urlencoded\<close>: letters, digits and \<open>* - . _\<close> stay, a space
  becomes \<open>+\<close>, any other byte becomes \<open>%XX\<close>; pairs are joined by \<open>&\<close>.
\<close>

definition hex_digit :: "nat \<Rightarrow> char" where
  "hex_digit d = ''0123456789ABCDEF'' ! d"

definition urlencode_byte :: "char \<Rightarrow> string" where
  "urlencode_byte c =
     (let n = (of_char c :: nat) in
      if (48 \<le> n \<and> n \<le> 57) \<or> (65 \<le> n \<and> n \<le> 90) \<or> (97 \<le> n \<and> n \<le> 122)
         \<or> c = CHR ''*'' \<or> c = CHR ''-'' \<or> c = CHR ''.'' \<or> c = CHR ''_''
      then [c]
      else if c = CHR '' '' then ''+''
      else [CHR ''%'', hex_digit (n div 16), hex_digit (n mod 16)])"

definition urlencode :: "string \<Rightarrow> string" where
  "urlencode s = concat (map urlencode_byte s)"

fun params_toString :: "(string \<times> string) list \<Rightarrow> string" where
  "params_toString [] = []"
| "params_toString [(k, v)] = urlencode k @ ''='' @ urlencode v"
| "params_toString ((k, v) # p # ps) = urlencode k @ ''='' @ urlencode v @ ''&'' @ params_toString (p # ps)"

text \<open>
  The loop over \<open>Object.entries(body)\<close>: \<open>params.append(key, String(value))\<close> unless the
  value is undefined or null.
\<close>

fun appendParams :: "(string \<times> jsvalue) list \<Rightarrow> (string \<times> string) list \<Rightarrow> (string \<times> string) list" where
  "appendParams [] params = params"
| "appendParams ((key, v) # entries) params =
     appendParams entries
       (if v \<noteq> JUndefined \<and> v \<noteq> JNull then params @ [(key, js_String v)] else params)"

text \<open>
  The body of the request. \<open>typeof null === "object"\<close>, so a null body reaches
  \<open>Object.entries(body)\<close>, which throws a \<open>TypeError\<close> (the message is the engine's); any
  other value that is not an object leaves the request without a body.
\<close>

definition encodeBody ::
  "(string \<times> string) list \<Rightarrow> RequestBody option
     \<Rightarrow> thrown + (string \<times> string) list \<times> FetchBody option" where
  "encodeBody headers b =
     (case b of
        None \<Rightarrow> Inr (headers, None)
      | Some (FormDataBody parts) \<Rightarrow> Inr (headers, Some (FormDataPayload parts))
      | Some (ObjectBody entries) \<Rightarrow>
          Inr (AList.update ''Content-Type'' ''application/x-www-form-urlencoded'' headers,
               Some (TextPayload (params_toString (appendParams entries []))))
      | Some (PrimitiveBody v) \<Rightarrow>
          if v = JNull then Inl (Error ''Cannot convert undefined or null to object'')
          else Inr (headers, None))"

text \<open>
  \<open>ApiError\<close>, the error payload (\<open>error\<close> is kept as \<open>error_text\<close>; an absent \<open>error\<close> and
  the empty string are both falsy and both written \<open>[]\<close>), and what \<open>response.json()\<close> can
  yield: the empty object, an error payload, or a value of the caller's type.
\<close>

record ApiError =
  error_text :: string
  error_code :: "int option"

datatype 'a json_body = EmptyObject | ApiErrorBody ApiError | DataBody 'a

fun as_ApiError :: "'a json_body \<Rightarrow> ApiError" where
  "as_ApiError (ApiErrorBody e) = e"
| "as_ApiError EmptyObject = \<lparr> error_text = [], error_code = None \<rparr>"
| "as_ApiError (DataBody d) = \<lparr> error_text = [], error_code = None \<rparr>"

record 'a Response =
  http_status :: nat
  statusText :: string
  content_type :: "string option"
  json :: "thrown + 'a json_body"

definition response_ok :: "'a Response \<Rightarrow> bool" where
  "response_ok r = (200 \<le> http_status r \<and> http_status r \<le> 299)"

fun starts_with :: "string \<Rightarrow> string \<Rightarrow> bool" where
  "starts_with [] s = True"
| "starts_with (p # ps) [] = False"
| "starts_with (p # ps) (c # cs) = (p = c \<and> starts_with ps cs)"

fun str_includes :: "string \<Rightarrow> string \<Rightarrow> bool" where
  "str_includes sub [] = (sub = [])"
| "str_includes sub (c # cs) = (starts_with sub (c # cs) \<or> str_includes sub cs)"

definition hasJson :: "'a Response \<Rightarrow> bool" where
  "hasJson r = (case content_type r of None \<Rightarrow> False | Some ct \<Rightarrow> str_includes ''application/json'' ct)"

text \<open>The part of \<open>request\<close> after \<open>fetch\<close> has answered.\<close>

definition readResponse :: "'a Response \<Rightarrow> thrown + 'a json_body" where
  "readResponse r =
     (if \<not> response_ok r then
        (if hasJson r then
           (case json r of
              Inl err \<Rightarrow> Inl err
            | Inr b \<Rightarrow>
                (let errorData = as_ApiError b in
                 Inl (RealDebridApiError
                        (if error_text errorData \<noteq> [] then error_text errorData else ''Unknown API error'')
                        (http_status r) (error_code errorData))))
         else Inl (RealDebridApiError
                     (''HTTP '' @ string_of_nat (http_status r) @ '': '' @ statusText r)
                     (http_status r) None))
      else if http_status r = 204 \<or> \<not> hasJson r then Inr EmptyObject
      else json r)"

text \<open>
  What one call of \<open>request\<close> meets outside the program: by how many milliseconds the
  clock has moved on, beyond the timer's delay, when the request is tracked (a timer
  never fires early), and the answer of \<open>fetch\<close>.
\<close>

record 'a RequestEnv =
  lateness :: nat
  fetch :: "string \<Rightarrow> FetchOptions \<Rightarrow> thrown + 'a Response"

text \<open>
  What a call leaves: its result, the delay it was suspended for (if any), the request
  handed to \<open>fetch\<close> (if any), the clock when it was handed over or thrown, and
  \<open>requestTimestamps\<close>.
\<close>

record 'a Outcome =
  result :: "thrown + 'a json_body"
  suspendedFor :: "int option"
  dispatched :: "(string \<times> FetchOptions) option"
  finishedAt :: int
  timestamps :: "int list"

definition resume_clock :: "int \<Rightarrow> int option \<Rightarrow> 'a RequestEnv \<Rightarrow> int" where
  "resume_clock now delay env = now + (case delay of None \<Rightarrow> 0 | Some d \<Rightarrow> d) + int (lateness env)"

text \<open>
  \<open>request\<close> has two parts, divided by \<open>await waitForRateLimit()\<close>. The first is the
  check, \<open>waitForRateLimit\<close>, which runs at once when \<open>request\<close> is called. The second,
  \<open>request_resume\<close>, runs when the function goes on, at clock \<open>resumed\<close>, on the array as
  it is by then: the token is tested, the body encoded, the request tracked and handed to
  \<open>fetch\<close>. What is thrown before \<open>trackRequest\<close> leaves the array as it was.
\<close>

definition request_resume ::
  "int \<Rightarrow> int option \<Rightarrow> 'a RequestEnv \<Rightarrow> RequestOptions \<Rightarrow> int list \<Rightarrow> 'a Outcome" where
  "request_resume resumed delay env options requestTimestamps =
     (let url = BASE_URL @ path options;
          authorization =
            (if skipAuth options then Inr []
             else (case token options of
                     None \<Rightarrow> Inl (RealDebridApiError ''Authorization token is required'' 401 None)
                   | Some t \<Rightarrow>
                       if t = [] then Inl (RealDebridApiError ''Authorization token is required'' 401 None)
                       else Inr [(''Authorization'', ''Bearer '' @ t)]))
      in case authorization of
           Inl err \<Rightarrow>
             \<lparr> result = Inl err, suspendedFor = delay, dispatched = None,
               finishedAt = resumed, timestamps = requestTimestamps \<rparr>
         | Inr headers \<Rightarrow>
             (case encodeBody headers (body options) of
                Inl err \<Rightarrow>
                  \<lparr> result = Inl err, suspendedFor = delay, dispatched = None,
                    finishedAt = resumed, timestamps = requestTimestamps \<rparr>
              | Inr (headers', payload) \<Rightarrow>
                  (let fetchOptions = \<lparr> fetch_method = http_method options,
                                        fetch_headers = headers', fetch_body = payload \<rparr>
                   in \<lparr> result = (case fetch env url fetchOptions of
                                    Inl err \<Rightarrow> Inl err
                                  | Inr response \<Rightarrow> readResponse response),
                        suspendedFor = delay,
                        dispatched = Some (url, fetchOptions),
                        finishedAt = resumed,
                        timestamps = trackRequest resumed requestTimestamps \<rparr>)))"

text \<open>A call that nothing interrupts: the check, then the rest on the array the check left.\<close>

definition request :: "int \<Rightarrow> 'a RequestEnv \<Rightarrow> RequestOptions \<Rightarrow> int list \<Rightarrow> 'a Outcome" where
  "request now env options requestTimestamps =
     (case waitForRateLimit now requestTimestamps of
        (delay, kept) \<Rightarrow> request_resume (resume_clock now delay env) delay env options kept)"

text \<open>
  Calls made one after the other, each awaited before the next is made: \<open>idleBefore\<close> is
  the time that passes between the end of the previous call and this one.
\<close>

record 'a Call =
  idleBefore :: nat
  call_env :: "'a RequestEnv"
  call_options :: RequestOptions

fun run_requests :: "int \<Rightarrow> int list \<Rightarrow> 'a Call list \<Rightarrow> 'a Outcome list" where
  "run_requests clock requestTimestamps [] = []"
| "run_requests clock requestTimestamps (c # cs) =
     (let out = request (clock + int (idleBefore c)) (call_env c) (call_options c) requestTimestamps
      in out # run_requests (finishedAt out) (timestamps out) cs)"

text \<open>
  Calls that overlap: several calls of \<open>request\<close> made in one turn at clock \<open>now\<close>, none
  awaited before the next is made. Each runs its check when it is called, so all checks
  come before any call goes on; a check cleans the array and adds nothing to it, so every
  call gets the same answer. The calls then go on in the order in which they were made
  (continuations and timers of one delay run in the order in which they were queued), each
  no sooner than its timer and no sooner than the call before it, and each on the array as
  the call before it left it.
\<close>

fun start_requests :: "int \<Rightarrow> int list \<Rightarrow> 'a Call list \<Rightarrow> (int option \<times> 'a Call) list \<times> int list" where
  "start_requests now requestTimestamps [] = ([], requestTimestamps)"
| "start_requests now requestTimestamps (c # cs) =
     (case waitForRateLimit now requestTimestamps of
        (delay, kept) \<Rightarrow>
          (case start_requests now kept cs of
             (pending, left) \<Rightarrow> ((delay, c) # pending, left)))"

fun resume_requests ::
  "int \<Rightarrow> int \<Rightarrow> int list \<Rightarrow> (int option \<times> 'a Call) list \<Rightarrow> 'a Outcome list" where
  "resume_requests now previous requestTimestamps [] = []"
| "resume_requests now previous requestTimestamps ((delay, c) # pending) =
     (let resumed = max previous (now + (case delay of None \<Rightarrow> 0 | Some d \<Rightarrow> d))
                      + int (lateness (call_env c));
          out = request_resume resumed delay (call_env c) (call_options c) requestTimestamps
      in out # resume_requests now resumed (timestamps out) pending)"

definition overlapping_requests :: "int \<Rightarrow> int list \<Rightarrow> 'a Call list \<Rightarrow> 'a Outcome list" where
  "overlapping_requests now requestTimestamps calls =
     (case start_requests now requestTimestamps calls of
        (pending, left) \<Rightarrow> resume_requests now now left pending)"

definition dispatch_times :: "'a Outcome list \<Rightarrow> int list" where
  "dispatch_times outs = map finishedAt (filter (\<lambda>out. dispatched out \<noteq> None) outs)"

definition authorized :: "RequestOptions \<Rightarrow> bool" where
  "authorized options = (skipAuth options \<or> (\<exists>t. token options = Some t \<and> t \<noteq> []))"

definition sendable :: "RequestOptions \<Rightarrow> bool" where
  "sendable options = (authorized options \<and> body options \<noteq> Some (PrimitiveBody JNull))"

section \<open>Messages and their handlers (\<open>lib/messaging.ts\<close>, the background script)\<close>

text \<open>
  \<open>Message\<close> is the union of \<open>{ type, payload }\<close> shapes: one constructor per message
  type, carrying the payload that the type declares. \<open>LIST_TORRENTS\<close> and
  \<open>LIST_DOWNLOADS\<close> carry \<open>offset\<close> and \<open>limit\<close>, both optional (an undefined payload is
  both unset); \<open>SELECT_TORRENT_FILES\<close> carries the identifier and \<open>files\<close>, a string or a
  list of numbers.
\<close>

datatype LinkType = hoster | magnet

record DetectedLink =
  url :: string
  host :: string
  link_type :: LinkType

datatype Message =
    AUTH_STATUS
  | AUTH_LOGIN string
  | AUTH_LOGOUT
  | GET_USER_PROFILE
  | GET_USER_SETTINGS
  | CONVERT_POINTS
  | UNRESTRICT_LINK string "string option" "bool option"
  | UNRESTRICT_FOLDER string
  | CHECK_LINK string
  | DECRYPT_CONTAINER_FILE string
  | DECRYPT_CONTAINER_LINK string
  | GET_TRANSCODE_LINKS string
  | GET_MEDIA_INFO string
  | LIST_TORRENTS "int option" "int option"
  | GET_TORRENT_INFO string
  | ADD_MAGNET string
  | ADD_TORRENT string
  | SELECT_TORRENT_FILES string "string + int list"
  | DELETE_TORRENT string
  | GET_ACTIVE_TORRENT_COUNT
  | LIST_DOWNLOADS "int option" "int option"
  | DELETE_DOWNLOAD string
  | GET_HOSTS_REGEX
  | GET_HOSTS_DOMAINS
  | GET_HOSTS_STATUS
  | GET_TRAFFIC
  | GET_TRAFFIC_DETAILS
  | SHOW_NOTIFICATION string string
  | SCAN_PAGE_LINKS
  | REPORT_DETECTED_LINKS "DetectedLink list"
  | GET_DETECTED_LINKS

text \<open>
  The \<open>data\<close> of a response, by the shapes of \<open>ResponseMap\<close>. What a remote call returns and
  a handler passes on unread is \<open>RemoteData\<close>, of a type left open.
\<close>

datatype 'r ResponseData =
    AuthStatusData bool "UserProfile option"
  | LoginData bool "string option"
  | LogoutData bool
  | ProfileData UserProfile
  | ActiveCountData int int
  | StringsData "string list"
  | LinksData "DetectedLink list"
  | RemoteData 'r

text \<open>
  \<open>MessageResponse\<close>: \<open>{ success, data?, error?, errorCode? }\<close>; the field \<open>error\<close> is
  kept as \<open>error_field\<close>.
\<close>

record 'r MessageResponse =
  success :: bool
  data :: "'r ResponseData option"
  error_field :: "string option"
  errorCode :: "int option"

text \<open>The helper \<open>success(data)\<close>; \<open>success(undefined)\<close> has no data.\<close>

definition success_response :: "'r ResponseData option \<Rightarrow> 'r MessageResponse" where
  "success_response d = \<lparr> success = True, data = d, error_field = None, errorCode = None \<rparr>"

text \<open>
  \<open>withErrorHandling(fn)\<close>, given what \<open>fn\<close> did. Every value thrown in this code base is an
  \<open>Error\<close>, so the last alternative of the source, "Unknown error" for other values, has
  no input here.
\<close>

fun withErrorHandling :: "thrown + 'r ResponseData option \<Rightarrow> 'r MessageResponse" where
  "withErrorHandling (Inr d) = \<lparr> success = True, data = d, error_field = None, errorCode = None \<rparr>"
| "withErrorHandling (Inl (RealDebridApiError m st c)) =
     \<lparr> success = False, data = None, error_field = Some m, errorCode = c \<rparr>"
| "withErrorHandling (Inl err) =
     \<lparr> success = False, data = None, error_field = Some (message err), errorCode = None \<rparr>"

text \<open>
  \<open>createMessageListener(handlers)\<close>, as the listener it installs. \<open>handlers\<close> gives, for a
  message, the handler registered for its type applied to its payload, if one is
  registered. Without a handler the listener returns \<open>false\<close> and answers nothing
  (\<open>NotHandled\<close>); otherwise it answers with what the handler resolves to, or with the
  failure envelope when the handler rejects.
\<close>

datatype 'r dispatch = NotHandled | Responded "'r MessageResponse"

definition createMessageListener ::
  "(Message \<Rightarrow> ('s \<Rightarrow> 'e \<Rightarrow> 'w \<Rightarrow> (thrown + 'r MessageResponse) \<times> 'w) option)
     \<Rightarrow> Message \<Rightarrow> 's \<Rightarrow> 'e \<Rightarrow> 'w \<Rightarrow> 'r dispatch \<times> 'w" where
  "createMessageListener handlers msg sender env w =
     (case handlers msg of
        None \<Rightarrow> (NotHandled, w)
      | Some handler \<Rightarrow>
          (case handler sender env w of
             (Inr response, w') \<Rightarrow> (Responded response, w')
           | (Inl err, w') \<Rightarrow>
               (Responded \<lparr> success = False, data = None, error_field = Some (message err),
                            errorCode = None \<rparr>, w')))"

subsection \<open>The state and the environment of the handlers\<close>

text \<open>
  The handlers work on the background state and on the module variable
  \<open>detectedLinksByTab\<close>. \<open>sender.tab?.id\<close> is the only part of the sender they read.
\<close>

record Worker =
  bg :: Background
  detectedLinksByTab :: "nat \<rightharpoonup> DetectedLink list"

record Sender =
  tab_id :: "nat option"

text \<open>The calls of the API modules that handlers make and pass on, with their arguments.\<close>

datatype RemoteCall =
    UnrestrictLinkCall string string "string option" "int option"
  | UnrestrictFolderCall string string
  | ListTorrentsCall string "int option" "int option"
  | GetTorrentInfoCall string string
  | AddMagnetCall string string
  | AddTorrentCall string string
  | SelectFilesCall string string "string + int list"
  | DeleteTorrentCall string string
  | ListDownloadsCall string "int option" "int option"
  | DeleteDownloadCall string string

text \<open>
  What the handlers meet outside the program, besides the environment of polling: the
  answers of the remote calls, the clock of the cache, the identifier of the active tab
  (\<open>chrome.tabs.query\<close>), and \<open>storage.setToken\<close>, which \<open>handleLogin\<close> calls and the present
  \<open>lib/storage.ts\<close> does not define.
\<close>

record 'r HandlerEnv = PollEnv +
  getUser :: "string \<Rightarrow> thrown + UserProfile"
  getActiveCount :: "string \<Rightarrow> thrown + int \<times> int"
  getHostsRegex :: "thrown + string list"
  getHostsDomains :: "thrown + string list"
  remoteCall :: "RemoteCall \<Rightarrow> thrown + 'r"
  cacheClock :: int
  activeTab :: "thrown + nat option"
  setToken :: "string \<Rightarrow> Storage \<Rightarrow> thrown + Storage"

definition LINKS_BADGE_COLOR :: string where
  "LINKS_BADGE_COLOR = ''#9ED1EC''"

definition setCache :: "(CachedData \<Rightarrow> CachedData) \<Rightarrow> Storage \<Rightarrow> Storage" where
  "setCache updates st = st\<lparr> local_area := (local_area st)(CACHE \<mapsto> StoredCache (updates (getCache st))) \<rparr>"

definition cacheUserProfile :: "int \<Rightarrow> UserProfile \<Rightarrow> Storage \<Rightarrow> Storage" where
  "cacheUserProfile now profile =
     setCache (\<lambda>c. c\<lparr> userProfile := Some profile, userProfileTimestamp := Some now \<rparr>)"

definition cacheDomains :: "int \<Rightarrow> string list \<Rightarrow> Storage \<Rightarrow> Storage" where
  "cacheDomains now domains =
     setCache (\<lambda>c. c\<lparr> supportedDomains := Some domains, supportedDomainsTimestamp := Some now \<rparr>)"

definition cacheHostsRegex :: "int \<Rightarrow> string list \<Rightarrow> Storage \<Rightarrow> Storage" where
  "cacheHostsRegex now patterns =
     setCache (\<lambda>c. c\<lparr> hostsRegex := Some patterns, hostsRegexTimestamp := Some now \<rparr>)"

definition with_storage :: "Storage \<Rightarrow> Worker \<Rightarrow> Worker" where
  "with_storage st w = w\<lparr> bg := (bg w)\<lparr> storage := st \<rparr> \<rparr>"

definition log_effects :: "effect list \<Rightarrow> Worker \<Rightarrow> Worker" where
  "log_effects es w = w\<lparr> bg := (bg w)\<lparr> effects := effects (bg w) @ es \<rparr> \<rparr>"

definition updateBadgeForTab :: "nat \<Rightarrow> Worker \<Rightarrow> Worker" where
  "updateBadgeForTab tabId w =
     (let links = (case detectedLinksByTab w tabId of None \<Rightarrow> [] | Some l \<Rightarrow> l) in
      if length links > 0
      then log_effects [SetTabBadgeText (string_of_nat (length links)) tabId,
                        SetTabBadgeBackgroundColor LINKS_BADGE_COLOR tabId] w
      else
        (let activeTorrents = getActiveTorrentCount (bg w) in
         if activeTorrents > 0
         then log_effects [SetTabBadgeText (string_of_nat activeTorrents) tabId,
                           SetTabBadgeBackgroundColor BADGE_COLOR tabId] w
         else log_effects [SetTabBadgeText [] tabId] w))"

subsection \<open>The handlers\<close>

text \<open>
  Most handlers have one shape: \<open>const token = await getValidToken(); return
  withErrorHandling(() => call(token, ...))\<close>. The token is obtained outside
  \<open>withErrorHandling\<close>, so a failure of \<open>getValidToken\<close> rejects the handler. \<open>keep\<close> says
  what becomes \<open>data\<close>: the call's value, or nothing for the handlers that await the call
  and return nothing.
\<close>

definition authorizedCall ::
  "('r \<Rightarrow> 'r ResponseData option) \<Rightarrow> (string \<Rightarrow> RemoteCall) \<Rightarrow> ('r, 'e) HandlerEnv_scheme \<Rightarrow> Worker
     \<Rightarrow> (thrown + 'r MessageResponse) \<times> Worker" where
  "authorizedCall keep call env w =
     (case getValidToken env (storage (bg w)) of
        (Inl err, st1) \<Rightarrow> (Inl err, with_storage st1 w)
      | (Inr tk, st1) \<Rightarrow>
          (Inr (withErrorHandling (map_sum id keep (remoteCall env (call tk)))), with_storage st1 w))"

text \<open>\<open>if (result.success) startPolling()\<close>: started and not awaited.\<close>

definition thenStartPolling ::
  "('r, 'e) HandlerEnv_scheme \<Rightarrow> (thrown + 'r MessageResponse) \<times> Worker
     \<Rightarrow> (thrown + 'r MessageResponse) \<times> Worker" where
  "thenStartPolling env res =
     (case res of
        (Inr response, w) \<Rightarrow>
          (Inr response, if success response then w\<lparr> bg := startPolling env (bg w) \<rparr> else w)
      | (Inl err, w) \<Rightarrow> (Inl err, w))"

definition handleAuthStatus ::
  "Sender \<Rightarrow> ('r, 'e) HandlerEnv_scheme \<Rightarrow> Worker \<Rightarrow> (thrown + 'r MessageResponse) \<times> Worker" where
  "handleAuthStatus sender env w =
     (if isAuthenticated (storage (bg w)) then
        (case getValidToken env (storage (bg w)) of
           (Inl err, st1) \<Rightarrow>
             (Inr (success_response (Some (AuthStatusData False None))), with_storage st1 w)
         | (Inr tk, st1) \<Rightarrow>
             (case getUser env tk of
                Inl err \<Rightarrow>
                  (Inr (success_response (Some (AuthStatusData False None))), with_storage st1 w)
              | Inr profile \<Rightarrow>
                  (Inr (success_response (Some (AuthStatusData True (Some profile)))),
                   with_storage (cacheUserProfile (cacheClock env) profile st1) w)))
      else (Inr (success_response (Some (AuthStatusData False None))), w))"

definition handleLogin ::
  "string \<Rightarrow> Sender \<Rightarrow> ('r, 'e) HandlerEnv_scheme \<Rightarrow> Worker \<Rightarrow> (thrown + 'r MessageResponse) \<times> Worker" where
  "handleLogin payload_token sender env w =
     (if payload_token \<noteq> [] then
        (case getUser env payload_token of
           Inl err \<Rightarrow> (Inr (success_response (Some (LoginData False (Some (message err))))), w)
         | Inr profile \<Rightarrow>
             (case setToken env payload_token (storage (bg w)) of
                Inl err \<Rightarrow> (Inr (success_response (Some (LoginData False (Some (message err))))), w)
              | Inr st1 \<Rightarrow>
                  (Inr (success_response (Some (LoginData True None))),
                   with_storage (cacheUserProfile (cacheClock env) profile st1) w)))
      else (Inr (success_response (Some (LoginData False (Some ''No token provided'')))), w))"

definition handleLogout ::
  "Sender \<Rightarrow> ('r, 'e) HandlerEnv_scheme \<Rightarrow> Worker \<Rightarrow> (thrown + 'r MessageResponse) \<times> Worker" where
  "handleLogout sender env w =
     (Inr (success_response (Some (LogoutData True))), with_storage (removeAuthData (storage (bg w))) w)"

text \<open>\<open>handleGetUserProfile\<close> calls \<open>getUser\<close> outside \<open>withErrorHandling\<close>.\<close>

definition handleGetUserProfile ::
  "Sender \<Rightarrow> ('r, 'e) HandlerEnv_scheme \<Rightarrow> Worker \<Rightarrow> (thrown + 'r MessageResponse) \<times> Worker" where
  "handleGetUserProfile sender env w =
     (case getCachedUserProfile (cacheClock env) (storage (bg w)) of
        Some cached \<Rightarrow> (Inr (success_response (Some (ProfileData cached))), w)
      | None \<Rightarrow>
          (case getValidToken env (storage (bg w)) of
             (Inl err, st1) \<Rightarrow> (Inl err, with_storage st1 w)
           | (Inr tk, st1) \<Rightarrow>
               (case getUser env tk of
                  Inl err \<Rightarrow> (Inl err, with_storage st1 w)
                | Inr profile \<Rightarrow>
                    (Inr (success_response (Some (ProfileData profile))),
                     with_storage (cacheUserProfile (cacheClock env) profile st1) w))))"

definition handleUnrestrictLink ::
  "string \<Rightarrow> string option \<Rightarrow> bool option \<Rightarrow> Sender \<Rightarrow> ('r, 'e) HandlerEnv_scheme \<Rightarrow> Worker
     \<Rightarrow> (thrown + 'r MessageResponse) \<times> Worker" where
  "handleUnrestrictLink link password remote sender env w =
     authorizedCall (\<lambda>v. Some (RemoteData v))
       (\<lambda>tk. UnrestrictLinkCall tk link password (if remote = Some True then Some 1 else None)) env w"

definition handleUnrestrictFolder ::
  "string \<Rightarrow> Sender \<Rightarrow> ('r, 'e) HandlerEnv_scheme \<Rightarrow> Worker \<Rightarrow> (thrown + 'r MessageResponse) \<times> Worker" where
  "handleUnrestrictFolder link sender env w =
     authorizedCall (\<lambda>v. Some (RemoteData v)) (\<lambda>tk. UnrestrictFolderCall tk link) env w"

definition handleListTorrents ::
  "int option \<Rightarrow> int option \<Rightarrow> Sender \<Rightarrow> ('r, 'e) HandlerEnv_scheme \<Rightarrow> Worker
     \<Rightarrow> (thrown + 'r MessageResponse) \<times> Worker" where
  "handleListTorrents offset limit sender env w =
     authorizedCall (\<lambda>v. Some (RemoteData v)) (\<lambda>tk. ListTorrentsCall tk offset limit) env w"

definition handleGetTorrentInfo ::
  "string \<Rightarrow> Sender \<Rightarrow> ('r, 'e) HandlerEnv_scheme \<Rightarrow> Worker \<Rightarrow> (thrown + 'r MessageResponse) \<times> Worker" where
  "handleGetTorrentInfo i sender env w =
     authorizedCall (\<lambda>v. Some (RemoteData v)) (\<lambda>tk. GetTorrentInfoCall tk i) env w"

definition handleAddMagnet ::
  "string \<Rightarrow> Sender \<Rightarrow> ('r, 'e) HandlerEnv_scheme \<Rightarrow> Worker \<Rightarrow> (thrown + 'r MessageResponse) \<times> Worker" where
  "handleAddMagnet magnet_uri sender env w =
     thenStartPolling env
       (authorizedCall (\<lambda>v. Some (RemoteData v)) (\<lambda>tk. AddMagnetCall tk magnet_uri) env w)"

definition handleAddTorrent ::
  "string \<Rightarrow> Sender \<Rightarrow> ('r, 'e) HandlerEnv_scheme \<Rightarrow> Worker \<Rightarrow> (thrown + 'r MessageResponse) \<times> Worker" where
  "handleAddTorrent fileData sender env w =
     thenStartPolling env
       (authorizedCall (\<lambda>v. Some (RemoteData v)) (\<lambda>tk. AddTorrentCall tk fileData) env w)"

definition handleSelectFiles ::
  "string \<Rightarrow> string + int list \<Rightarrow> Sender \<Rightarrow> ('r, 'e) HandlerEnv_scheme \<Rightarrow> Worker
     \<Rightarrow> (thrown + 'r MessageResponse) \<times> Worker" where
  "handleSelectFiles i files sender env w =
     thenStartPolling env (authorizedCall (\<lambda>v. None) (\<lambda>tk. SelectFilesCall tk i files) env w)"

definition handleDeleteTorrent ::
  "string \<Rightarrow> Sender \<Rightarrow> ('r, 'e) HandlerEnv_scheme \<Rightarrow> Worker \<Rightarrow> (thrown + 'r MessageResponse) \<times> Worker" where
  "handleDeleteTorrent i sender env w =
     authorizedCall (\<lambda>v. None) (\<lambda>tk. DeleteTorrentCall tk i) env w"

definition handleGetActiveTorrentCount ::
  "Sender \<Rightarrow> ('r, 'e) HandlerEnv_scheme \<Rightarrow> Worker \<Rightarrow> (thrown + 'r MessageResponse) \<times> Worker" where
  "handleGetActiveTorrentCount sender env w =
     (case getValidToken env (storage (bg w)) of
        (Inl err, st1) \<Rightarrow> (Inl err, with_storage st1 w)
      | (Inr tk, st1) \<Rightarrow>
          (Inr (withErrorHandling
                  (map_sum id (\<lambda>(nb, limit). Some (ActiveCountData nb limit)) (getActiveCount env tk))),
           with_storage st1 w))"

definition handleListDownloads ::
  "int option \<Rightarrow> int option \<Rightarrow> Sender \<Rightarrow> ('r, 'e) HandlerEnv_scheme \<Rightarrow> Worker
     \<Rightarrow> (thrown + 'r MessageResponse) \<times> Worker" where
  "handleListDownloads offset limit sender env w =
     authorizedCall (\<lambda>v. Some (RemoteData v)) (\<lambda>tk. ListDownloadsCall tk offset limit) env w"

definition handleDeleteDownload ::
  "string \<Rightarrow> Sender \<Rightarrow> ('r, 'e) HandlerEnv_scheme \<Rightarrow> Worker \<Rightarrow> (thrown + 'r MessageResponse) \<times> Worker" where
  "handleDeleteDownload i sender env w =
     authorizedCall (\<lambda>v. None) (\<lambda>tk. DeleteDownloadCall tk i) env w"

definition handleGetHostsRegex ::
  "Sender \<Rightarrow> ('r, 'e) HandlerEnv_scheme \<Rightarrow> Worker \<Rightarrow> (thrown + 'r MessageResponse) \<times> Worker" where
  "handleGetHostsRegex sender env w =
     (case getCachedHostsRegex (cacheClock env) (storage (bg w)) of
        Some cached \<Rightarrow> (Inr (success_response (Some (StringsData cached))), w)
      | None \<Rightarrow>
          (case getHostsRegex env of
             Inl err \<Rightarrow> (Inr (withErrorHandling (Inl err)), w)
           | Inr patterns \<Rightarrow>
               (Inr (withErrorHandling (Inr (Some (StringsData patterns)))),
                with_storage (cacheHostsRegex (cacheClock env) patterns (storage (bg w))) w)))"

definition handleGetHostsDomains ::
  "Sender \<Rightarrow> ('r, 'e) HandlerEnv_scheme \<Rightarrow> Worker \<Rightarrow> (thrown + 'r MessageResponse) \<times> Worker" where
  "handleGetHostsDomains sender env w =
     (case getCachedDomains (cacheClock env) (storage (bg w)) of
        Some cached \<Rightarrow> (Inr (success_response (Some (StringsData cached))), w)
      | None \<Rightarrow>
          (case getHostsDomains env of
             Inl err \<Rightarrow> (Inr (withErrorHandling (Inl err)), w)
           | Inr domains \<Rightarrow>
               (Inr (withErrorHandling (Inr (Some (StringsData domains)))),
                with_storage (cacheDomains (cacheClock env) domains (storage (bg w))) w)))"

definition handleShowNotification ::
  "string \<Rightarrow> string \<Rightarrow> Sender \<Rightarrow> ('r, 'e) HandlerEnv_scheme \<Rightarrow> Worker
     \<Rightarrow> (thrown + 'r MessageResponse) \<times> Worker" where
  "handleShowNotification title msg sender env w =
     (Inr (success_response None),
      if notificationsEnabled (getPreferences (storage (bg w)))
      then log_effects [NotificationCreateUnnamed title msg] w else w)"

text \<open>\<open>if (!tabId)\<close>: no tab, or the tab identifier \<open>0\<close>.\<close>

definition handleReportDetectedLinks ::
  "DetectedLink list \<Rightarrow> Sender \<Rightarrow> ('r, 'e) HandlerEnv_scheme \<Rightarrow> Worker
     \<Rightarrow> (thrown + 'r MessageResponse) \<times> Worker" where
  "handleReportDetectedLinks links sender env w =
     (case tab_id sender of
        None \<Rightarrow> (Inr (success_response None), w)
      | Some tabId \<Rightarrow>
          if tabId = 0 then (Inr (success_response None), w)
          else (Inr (success_response None),
                updateBadgeForTab tabId (w\<lparr> detectedLinksByTab := (detectedLinksByTab w)(tabId \<mapsto> links) \<rparr>)))"

definition linksOfTab :: "Worker \<Rightarrow> nat \<Rightarrow> DetectedLink list" where
  "linksOfTab w tabId = (case detectedLinksByTab w tabId of None \<Rightarrow> [] | Some l \<Rightarrow> l)"

definition handleGetDetectedLinks ::
  "Sender \<Rightarrow> ('r, 'e) HandlerEnv_scheme \<Rightarrow> Worker \<Rightarrow> (thrown + 'r MessageResponse) \<times> Worker" where
  "handleGetDetectedLinks sender env w =
     (case (case tab_id sender of None \<Rightarrow> None | Some t \<Rightarrow> if t = 0 then None else Some t) of
        None \<Rightarrow>
          (case activeTab env of
             Inr (Some activeId) \<Rightarrow>
               if activeId \<noteq> 0 then (Inr (success_response (Some (LinksData (linksOfTab w activeId)))), w)
               else (Inr (success_response (Some (LinksData []))), w)
           | _ \<Rightarrow> (Inr (success_response (Some (LinksData []))), w))
      | Some tabId \<Rightarrow> (Inr (success_response (Some (LinksData (linksOfTab w tabId)))), w))"

text \<open>
  The registry handed to \<open>createMessageListener\<close> by the background script: twenty of the
  message types have a handler.
\<close>

fun backgroundHandlers ::
  "Message \<Rightarrow> (Sender \<Rightarrow> ('r, 'e) HandlerEnv_scheme \<Rightarrow> Worker \<Rightarrow> (thrown + 'r MessageResponse) \<times> Worker) option" where
  "backgroundHandlers AUTH_STATUS = Some handleAuthStatus"
| "backgroundHandlers (AUTH_LOGIN t) = Some (handleLogin t)"
| "backgroundHandlers AUTH_LOGOUT = Some handleLogout"
| "backgroundHandlers GET_USER_PROFILE = Some handleGetUserProfile"
| "backgroundHandlers (UNRESTRICT_LINK link password remote) = Some (handleUnrestrictLink link password remote)"
| "backgroundHandlers (UNRESTRICT_FOLDER link) = Some (handleUnrestrictFolder link)"
| "backgroundHandlers (LIST_TORRENTS offset limit) = Some (handleListTorrents offset limit)"
| "backgroundHandlers (GET_TORRENT_INFO i) = Some (handleGetTorrentInfo i)"
| "backgroundHandlers (ADD_MAGNET m) = Some (handleAddMagnet m)"
| "backgroundHandlers (ADD_TORRENT f) = Some (handleAddTorrent f)"
| "backgroundHandlers (SELECT_TORRENT_FILES i files) = Some (handleSelectFiles i files)"
| "backgroundHandlers (DELETE_TORRENT i) = Some (handleDeleteTorrent i)"
| "backgroundHandlers GET_ACTIVE_TORRENT_COUNT = Some handleGetActiveTorrentCount"
| "backgroundHandlers (LIST_DOWNLOADS offset limit) = Some (handleListDownloads offset limit)"
| "backgroundHandlers (DELETE_DOWNLOAD i) = Some (handleDeleteDownload i)"
| "backgroundHandlers GET_HOSTS_REGEX = Some handleGetHostsRegex"
| "backgroundHandlers GET_HOSTS_DOMAINS = Some handleGetHostsDomains"
| "backgroundHandlers (SHOW_NOTIFICATION title msg) = Some (handleShowNotification title msg)"
| "backgroundHandlers (REPORT_DETECTED_LINKS links) = Some (handleReportDetectedLinks links)"
| "backgroundHandlers GET_DETECTED_LINKS = Some handleGetDetectedLinks"
| "backgroundHandlers other = None"

section \<open>Conditions and concrete inputs used by the theorems\<close>

text \<open>
  \<open>refresh_lifetime_positive\<close>: the refresh that \<open>getValidToken\<close> would make, if it answers,
  answers with a positive \<open>expires_in\<close>. \<open>clock_at_return\<close>: the last clock reading of the
  call, after the refresh when one is made.
\<close>

definition refresh_lifetime_positive :: "'e TokenEnv_scheme \<Rightarrow> Storage \<Rightarrow> bool" where
  "refresh_lifetime_positive env st =
     (case getAuthData st of
        None \<Rightarrow> True
      | Some a \<Rightarrow>
          (case refreshAccessToken env (clientId a) (clientSecret a) (refreshToken a) of
             Inl err \<Rightarrow> True
           | Inr tokenResponse \<Rightarrow> 0 < expires_in tokenResponse))"

definition clock_at_return :: "'e TokenEnv_scheme \<Rightarrow> Storage \<Rightarrow> int" where
  "clock_at_return env st =
     (case getAuthData st of
        None \<Rightarrow> dateNow env
      | Some a \<Rightarrow> if isTokenExpired (dateNow env) a then dateNowAfterRefresh env else dateNow env)"

text \<open>
  Concrete inputs: a credential that expired at 1000, in a store with a cache and
  preferences; token endpoints that fail, answer with a lifetime of 3600 s, or answer with
  a lifetime of 0; a listing of three jobs and a snapshot table that knows \<open>T1\<close> as
  downloading and \<open>T9\<close>, which the listing no longer has.
\<close>

definition ex_auth :: AuthData where
  "ex_auth = \<lparr> accessToken = ''tok-1'', refreshToken = ''ref-1'', clientId = ''cid'',
               clientSecret = ''sec'', expiresAt = Some 1000 \<rparr>"

definition ex_profile :: UserProfile where
  "ex_profile = \<lparr> profile_id = 7, username = ''ann'', email = ''ann@example.org'', points = 0,
                  locale_code = ''en'', avatar = [], premium_type = ''premium'', premium = 0,
                  expiration = [] \<rparr>"

definition ex_cache :: CachedData where
  "ex_cache = \<lparr> userProfile = Some ex_profile, userProfileTimestamp = Some 4000,
                supportedDomains = Some [''host.example''], supportedDomainsTimestamp = Some 4000,
                hostsRegex = Some [''x''], hostsRegexTimestamp = Some 4000 \<rparr>"

definition ex_prefs :: StoredPreferences where
  "ex_prefs = \<lparr> stored_notificationsEnabled = Some True, stored_autoUnrestrict = None,
                stored_autoSelectFiles = Some False, stored_autoScanEnabled = None,
                stored_downloadDirectory = None, stored_theme = Some dark \<rparr>"

definition ex_store :: Storage where
  "ex_store = \<lparr> local_area = [AUTH_DATA \<mapsto> StoredAuth ex_auth, CACHE \<mapsto> StoredCache ex_cache],
                sync_area = [PREFERENCES \<mapsto> StoredPrefs ex_prefs] \<rparr>"

definition ex_store_no_expiry :: Storage where
  "ex_store_no_expiry = setAuthData (ex_auth\<lparr> expiresAt := None \<rparr>) ex_store"

definition ex_env_refresh_fails :: TokenEnv where
  "ex_env_refresh_fails =
     \<lparr> dateNow = 5000,
       refreshAccessToken = (\<lambda>cid sec ref. Inl (OAuthError ''invalid_grant'' (Some ''invalid_grant''))),
       dateNowAfterRefresh = 5100 \<rparr>"

definition ex_env_refresh_ok :: TokenEnv where
  "ex_env_refresh_ok =
     \<lparr> dateNow = 5000,
       refreshAccessToken = (\<lambda>cid sec ref.
          Inr \<lparr> access_token = ''tok-2'', expires_in = 3600, token_type = ''Bearer'',
                refresh_token = ''ref-2'' \<rparr>),
       dateNowAfterRefresh = 5100 \<rparr>"

definition ex_env_zero_lifetime :: TokenEnv where
  "ex_env_zero_lifetime =
     \<lparr> dateNow = 5000,
       refreshAccessToken = (\<lambda>cid sec ref.
          Inr \<lparr> access_token = ''tok-2'', expires_in = 0, token_type = ''Bearer'',
                refresh_token = ''ref-2'' \<rparr>),
       dateNowAfterRefresh = 5100 \<rparr>"

definition ex_torrents :: "TorrentItem list" where
  "ex_torrents =
     [ \<lparr> torrent_id = ''T1'', filename = ''ubuntu.iso'', status = downloaded \<rparr>,
       \<lparr> torrent_id = ''T2'', filename = ''debian.iso'', status = downloading \<rparr>,
       \<lparr> torrent_id = ''T3'', filename = ''arch.iso'', status = downloaded \<rparr> ]"

definition ex_poll_env :: PollEnv where
  "ex_poll_env =
     \<lparr> dateNow = 5000,
       refreshAccessToken = (\<lambda>cid sec ref. Inl (Error ''offline'')),
       dateNowAfterRefresh = 5100,
       hasAlarmsSupport = True,
       listTorrents = (\<lambda>tk limit. Inr ex_torrents) \<rparr>"

definition ex_bg :: Background where
  "ex_bg =
     \<lparr> storage = ex_store_no_expiry,
       knownTorrents = [(''T1'', downloading), (''T9'', queued)],
       alarms = [POLLING_ALARM_NAME \<mapsto> POLLING_INTERVAL_MINUTES],
       effects = [],
       pollCalls = 0 \<rparr>"

text \<open>
  \<open>kept_entries\<close>: the entries of an object body whose value is neither undefined nor null,
  each value as its string. \<open>within_slice T\<close>: the instants of the 60 seconds that end at
  \<open>T\<close>. \<open>gateway_inv clock tss hist\<close>, the invariant of sequential calls: \<open>hist\<close> are the
  dispatch instants so far, none after \<open>clock\<close>; \<open>tss\<close> (the array \<open>requestTimestamps\<close>) is
  \<open>hist\<close> cleaned at some earlier reading; neither the array nor any 60-second slice of
  \<open>hist\<close> holds more than 250.
\<close>

definition kept_entries :: "(string \<times> jsvalue) list \<Rightarrow> (string \<times> string) list" where
  "kept_entries entries =
     map (\<lambda>(k, v). (k, js_String v)) (filter (\<lambda>(k, v). v \<noteq> JUndefined \<and> v \<noteq> JNull) entries)"

definition within_slice :: "int \<Rightarrow> int \<Rightarrow> bool" where
  "within_slice T d = (T - RATE_WINDOW_MS < d \<and> d \<le> T)"

definition gateway_inv :: "int \<Rightarrow> int list \<Rightarrow> int list \<Rightarrow> bool" where
  "gateway_inv clock tss hist =
     (0 < clock
      \<and> (\<forall>d\<in>set hist. 0 < d \<and> d \<le> clock)
      \<and> (\<exists>c. c \<le> clock \<and> tss = filter (\<lambda>d. c - d < RATE_WINDOW_MS) hist)
      \<and> length tss \<le> 250
      \<and> (\<forall>T. length (filter (within_slice T) hist) \<le> 250))"

definition ex_options :: RequestOptions where
  "ex_options =
     \<lparr> http_method = POST, path = ''/unrestrict/link'',
       body = Some (ObjectBody [(''link'', JString ''https://h.example/f 1''),
                                (''password'', JUndefined), (''remote'', JNumber 1),
                                (''note'', JNull)]),
       token = Some ''tok-1'', skipAuth = False \<rparr>"

definition ex_response_error :: "string Response" where
  "ex_response_error =
     \<lparr> http_status = 403, statusText = ''Forbidden'',
       content_type = Some ''application/json; charset=utf-8'',
       json = Inr (ApiErrorBody \<lparr> error_text = ''permission_denied'', error_code = Some 9 \<rparr>) \<rparr>"

definition ex_response_plain :: "string Response" where
  "ex_response_plain =
     \<lparr> http_status = 503, statusText = ''Service Unavailable'', content_type = Some ''text/html'',
       json = Inl (Error ''Unexpected token'') \<rparr>"

definition ex_response_empty :: "string Response" where
  "ex_response_empty =
     \<lparr> http_status = 204, statusText = ''No Content'', content_type = None,
       json = Inl (Error ''Unexpected end of JSON input'') \<rparr>"

definition ex_request_env :: "string Response \<Rightarrow> string RequestEnv" where
  "ex_request_env r = \<lparr> lateness = 0, fetch = (\<lambda>target fetchOptions. Inr r) \<rparr>"

definition ex_call :: "string Call" where
  "ex_call = \<lparr> idleBefore = 0, call_env = ex_request_env ex_response_empty, call_options = ex_options \<rparr>"

text \<open>
  Concrete inputs for the handlers: an environment whose profile call fails with
  \<open>bad_token\<close>, a worker that is signed out and one that is signed in with an empty cache.
\<close>

definition ex_handler_env :: "string HandlerEnv" where
  "ex_handler_env =
     \<lparr> dateNow = 5000,
       refreshAccessToken = (\<lambda>cid sec ref. Inl (Error ''offline'')),
       dateNowAfterRefresh = 5100,
       hasAlarmsSupport = True,
       listTorrents = (\<lambda>tk limit. Inr ex_torrents),
       getUser = (\<lambda>tk. Inl (RealDebridApiError ''bad_token'' 401 (Some 8))),
       getActiveCount = (\<lambda>tk. Inr (1, 10)),
       getHostsRegex = Inr [],
       getHostsDomains = Inr [],
       remoteCall = (\<lambda>c. Inr ''{}''),
       cacheClock = 5000,
       activeTab = Inr None,
       setToken = (\<lambda>t st. Inl (Error ''storage.setToken is not a function'')) \<rparr>"

definition ex_worker_signed_out :: Worker where
  "ex_worker_signed_out =
     \<lparr> bg = ex_bg\<lparr> storage := removeAuthData ex_store \<rparr>, detectedLinksByTab = Map.empty \<rparr>"

definition ex_worker_signed_in :: Worker where
  "ex_worker_signed_in =
     \<lparr> bg = ex_bg\<lparr> storage := clearCache ex_store_no_expiry \<rparr>, detectedLinksByTab = Map.empty \<rparr>"

definition ex_sender :: Sender where
  "ex_sender = \<lparr> tab_id = Some 3 \<rparr>"

section \<open>The store and the token lifecycle\<close>

lemma getAuthData_removeAuthData: "getAuthData (removeAuthData st) = None"
  by (simp add: getAuthData_def removeAuthData_def clearCache_def AUTH_DATA_def CACHE_def)

lemma getCache_removeAuthData: "getCache (removeAuthData st) = empty_cache"
  by (simp add: getCache_def removeAuthData_def clearCache_def)

lemma sync_area_removeAuthData: "sync_area (removeAuthData st) = sync_area st"
  by (simp add: removeAuthData_def clearCache_def)

lemma sync_area_getValidToken: "sync_area (snd (getValidToken env st)) = sync_area st"
  by (simp add: getValidToken_def setAuthData_def sync_area_removeAuthData Let_def
           split: option.splits sum.splits)

lemma getAuthData_setAuthData: "getAuthData (setAuthData a st) = Some a"
  by (simp add: getAuthData_def setAuthData_def)

lemma returned_token_not_expired:
  assumes "getValidToken env st = (Inr tok, st')" and "refresh_lifetime_positive env st"
  shows "\<exists>a'. getAuthData st' = Some a' \<and> accessToken a' = tok
              \<and> \<not> isTokenExpired (clock_at_return env st) a'"
proof (cases "getAuthData st")
  case None
  with assms show ?thesis by (simp add: getValidToken_def)
next
  case (Some a)
  show ?thesis
  proof (cases "isTokenExpired (dateNow env) a")
    case False
    with Some assms show ?thesis
      by (auto simp: getValidToken_def clock_at_return_def)
  next
    case True
    with Some assms obtain tr where
      tr: "refreshAccessToken env (clientId a) (clientSecret a) (refreshToken a) = Inr tr"
      by (auto simp: getValidToken_def split: sum.splits)
    with Some assms True have pos: "0 < expires_in tr"
      by (simp add: refresh_lifetime_positive_def)
    from Some True tr assms(1) show ?thesis
      using pos
      by (auto simp: getValidToken_def clock_at_return_def Let_def getAuthData_setAuthData
            isTokenExpired_def)
  qed
qed

lemma no_expiry_no_refresh:
  assumes "getAuthData st = Some a" and "expiresAt a = None \<or> expiresAt a = Some 0"
  shows "getValidToken env st = (Inr (accessToken a), st)"
  using assms by (auto simp: getValidToken_def isTokenExpired_def)

lemma twice_same_token:
  assumes "getAuthData st = Some a" and "\<not> isTokenExpired (dateNow env) a"
      and "\<not> isTokenExpired (dateNow env2) a"
  shows "getValidToken env st = (Inr (accessToken a), st)
       \<and> getValidToken env2 (snd (getValidToken env st)) = (Inr (accessToken a), st)"
  using assms by (simp add: getValidToken_def)

lemma ex_getAuthData: "getAuthData ex_store = Some ex_auth"
  by (simp add: getAuthData_def ex_store_def AUTH_DATA_def CACHE_def)

lemma ex_getAuthData_no_expiry: "getAuthData ex_store_no_expiry = Some (ex_auth\<lparr> expiresAt := None \<rparr>)"
  by (simp add: ex_store_no_expiry_def getAuthData_setAuthData)

text \<open>
  Claim C3. If \<open>getValidToken\<close> finds a stored credential whose declared expiry has passed
  and the refresh request fails, the call fails with the session-expired error and leaves
  the store without the credential: reading it afterwards gives nothing, no token is
  found, the user is not authenticated, and a further \<open>getValidToken\<close> fails with
  "Not authenticated".
\<close>

theorem refresh_failure_deletes_credential:
  assumes "getAuthData st = Some a"
      and "expiresAt a = Some e" and "e \<noteq> 0" and "e \<le> dateNow env"
      and "refreshAccessToken env (clientId a) (clientSecret a) (refreshToken a) = Inl err"
  shows "getValidToken env st = (Inl (Error ''Session expired. Please log in again.''), removeAuthData st)
       \<and> local_area (removeAuthData st) AUTH_DATA = None
       \<and> getAuthData (removeAuthData st) = None
       \<and> getToken (removeAuthData st) = None
       \<and> \<not> isAuthenticated (removeAuthData st)
       \<and> fst (getValidToken env' (removeAuthData st)) = Inl (Error ''Not authenticated'')"
  using assms
  by (simp add: getValidToken_def isTokenExpired_def getAuthData_removeAuthData getToken_def
        isAuthenticated_def)
     (simp add: removeAuthData_def clearCache_def AUTH_DATA_def CACHE_def)

theorem refresh_failure_deletes_credential_witness:
  "getValidToken ex_env_refresh_fails ex_store
     = (Inl (Error ''Session expired. Please log in again.''), removeAuthData ex_store)
   \<and> getAuthData ex_store = Some ex_auth
   \<and> getAuthData (removeAuthData ex_store) = None
   \<and> fst (getValidToken ex_env_refresh_fails (removeAuthData ex_store)) = Inl (Error ''Not authenticated'')"
  using refresh_failure_deletes_credential[of ex_store ex_auth 1000 ex_env_refresh_fails
      "OAuthError ''invalid_grant'' (Some ''invalid_grant'')" ex_env_refresh_fails]
  by (simp add: ex_getAuthData) (simp add: ex_auth_def ex_env_refresh_fails_def)

text \<open>
  Claim C4 as stated fails when the refresh answers with \<open>expires_in = 0\<close>: the credential
  stored at 1000 is expired at 5000, the refreshed token \<open>tok-2\<close> is returned, and its
  stored expiry is the clock reading 5100 at which it was computed, which
  \<open>isTokenExpired\<close> counts as expired at that same reading and at every later one.
\<close>

theorem getValidToken_expired_after_refresh_counterexample:
  "fst (getValidToken ex_env_zero_lifetime ex_store) = Inr ''tok-2''
   \<and> map_option accessToken (getAuthData (snd (getValidToken ex_env_zero_lifetime ex_store))) = Some ''tok-2''
   \<and> map_option expiresAt (getAuthData (snd (getValidToken ex_env_zero_lifetime ex_store))) = Some (Some 5100)
   \<and> map_option (isTokenExpired (dateNowAfterRefresh ex_env_zero_lifetime))
        (getAuthData (snd (getValidToken ex_env_zero_lifetime ex_store))) = Some True"
  by (simp add: getValidToken_def ex_getAuthData isTokenExpired_def ex_auth_def
        ex_env_zero_lifetime_def Let_def getAuthData_setAuthData)

text \<open>
  Claim C4, as amended. Provided that a refresh, when one is made, answers with a positive
  \<open>expires_in\<close>, a token returned by \<open>getValidToken\<close> is the access token of the stored
  credential and its stored expiry, when declared, is not at or before the last clock
  reading of the call. When the stored \<open>expiresAt\<close> is unset or zero the stored access token
  is returned and the store is left as it was, whatever the refresh endpoint would have
  answered. Two calls in succession that both find the credential unexpired return the
  same token and leave the store unchanged. A stored credential whose declared expiry has
  passed is never handed out as it is: the call returns and stores the token of the refresh
  answer, or fails with the session-expired error.
\<close>

theorem getValidToken_token_validity:
  "(getValidToken env st = (Inr tok, st') \<and> refresh_lifetime_positive env st \<longrightarrow>
      (\<exists>a'. getAuthData st' = Some a' \<and> accessToken a' = tok
            \<and> \<not> isTokenExpired (clock_at_return env st) a'))
   \<and> (getAuthData st = Some a \<and> (expiresAt a = None \<or> expiresAt a = Some 0) \<longrightarrow>
        getValidToken env st = (Inr (accessToken a), st))
   \<and> (getAuthData st = Some a \<and> \<not> isTokenExpired (dateNow env) a
        \<and> \<not> isTokenExpired (dateNow env2) a \<longrightarrow>
        getValidToken env st = (Inr (accessToken a), st)
        \<and> getValidToken env2 (snd (getValidToken env st)) = (Inr (accessToken a), st))
   \<and> (getAuthData st = Some a \<and> isTokenExpired (dateNow env) a \<longrightarrow>
        (case refreshAccessToken env (clientId a) (clientSecret a) (refreshToken a) of
           Inl failure \<Rightarrow>
             fst (getValidToken env st) = Inl (Error ''Session expired. Please log in again.'')
         | Inr tokenResponse \<Rightarrow>
             fst (getValidToken env st) = Inr (access_token tokenResponse)
             \<and> map_option accessToken (getAuthData (snd (getValidToken env st)))
                 = Some (access_token tokenResponse)))"
proof (intro conjI impI)
  assume "getValidToken env st = (Inr tok, st') \<and> refresh_lifetime_positive env st"
  then show "\<exists>a'. getAuthData st' = Some a' \<and> accessToken a' = tok
                 \<and> \<not> isTokenExpired (clock_at_return env st) a'"
    using returned_token_not_expired[of env st tok st'] by simp
next
  assume "getAuthData st = Some a \<and> (expiresAt a = None \<or> expiresAt a = Some 0)"
  then show "getValidToken env st = (Inr (accessToken a), st)"
    using no_expiry_no_refresh[of st a env] by simp
next
  assume h: "getAuthData st = Some a \<and> \<not> isTokenExpired (dateNow env) a
             \<and> \<not> isTokenExpired (dateNow env2) a"
  then show "getValidToken env st = (Inr (accessToken a), st)"
    using twice_same_token[of st a env env2] by simp
  from h show "getValidToken env2 (snd (getValidToken env st)) = (Inr (accessToken a), st)"
    using twice_same_token[of st a env env2] by blast
next
  assume "getAuthData st = Some a \<and> isTokenExpired (dateNow env) a"
  then show "case refreshAccessToken env (clientId a) (clientSecret a) (refreshToken a) of
           Inl failure \<Rightarrow>
             fst (getValidToken env st) = Inl (Error ''Session expired. Please log in again.'')
         | Inr tokenResponse \<Rightarrow>
             fst (getValidToken env st) = Inr (access_token tokenResponse)
             \<and> map_option accessToken (getAuthData (snd (getValidToken env st)))
                 = Some (access_token tokenResponse)"
    by (simp add: getValidToken_def Let_def getAuthData_setAuthData split: sum.splits)
qed

theorem getValidToken_token_validity_witness:
  "fst (getValidToken ex_env_refresh_ok ex_store) = Inr ''tok-2''
   \<and> (\<exists>a'. getAuthData (snd (getValidToken ex_env_refresh_ok ex_store)) = Some a' \<and> accessToken a' = ''tok-2''
          \<and> \<not> isTokenExpired 5100 a')
   \<and> getValidToken ex_env_refresh_fails ex_store_no_expiry = (Inr ''tok-1'', ex_store_no_expiry)
   \<and> getValidToken ex_env_refresh_ok (snd (getValidToken ex_env_refresh_fails ex_store_no_expiry))
        = (Inr ''tok-1'', ex_store_no_expiry)"
proof -
  have r: "fst (getValidToken ex_env_refresh_ok ex_store) = Inr ''tok-2''"
    by (simp add: getValidToken_def ex_getAuthData isTokenExpired_def ex_auth_def
          ex_env_refresh_ok_def Let_def)
  then have run: "getValidToken ex_env_refresh_ok ex_store
                    = (Inr ''tok-2'', snd (getValidToken ex_env_refresh_ok ex_store))"
    by (metis prod.collapse)
  have pos: "refresh_lifetime_positive ex_env_refresh_ok ex_store"
    by (simp add: refresh_lifetime_positive_def ex_getAuthData ex_env_refresh_ok_def)
  have clock: "clock_at_return ex_env_refresh_ok ex_store = 5100"
    by (simp add: clock_at_return_def ex_getAuthData isTokenExpired_def ex_auth_def
          ex_env_refresh_ok_def)
  have none: "expiresAt (ex_auth\<lparr> expiresAt := None \<rparr>) = None" by simp
  have ne: "\<not> isTokenExpired t (ex_auth\<lparr> expiresAt := None \<rparr>)" for t
    by (simp add: isTokenExpired_def)
  have tk: "accessToken (ex_auth\<lparr> expiresAt := None \<rparr>) = ''tok-1''"
    by (simp add: ex_auth_def)
  note t1 = getValidToken_token_validity[of ex_env_refresh_ok ex_store "''tok-2''"
              "snd (getValidToken ex_env_refresh_ok ex_store)" ex_auth ex_env_refresh_ok]
  note t2 = getValidToken_token_validity[of ex_env_refresh_fails ex_store_no_expiry _ _
              "ex_auth\<lparr> expiresAt := None \<rparr>" ex_env_refresh_ok]
  from t1 run pos clock have a: "\<exists>a'. getAuthData (snd (getValidToken ex_env_refresh_ok ex_store)) = Some a'
      \<and> accessToken a' = ''tok-2'' \<and> \<not> isTokenExpired 5100 a'"
    by metis
  have h2: "getAuthData ex_store_no_expiry = Some (ex_auth\<lparr> expiresAt := None \<rparr>)
            \<and> \<not> isTokenExpired (dateNow ex_env_refresh_fails) (ex_auth\<lparr> expiresAt := None \<rparr>)
            \<and> \<not> isTokenExpired (dateNow ex_env_refresh_ok) (ex_auth\<lparr> expiresAt := None \<rparr>)"
    using ex_getAuthData_no_expiry ne by simp
  from t2 h2
  have "getValidToken ex_env_refresh_fails ex_store_no_expiry
          = (Inr (accessToken (ex_auth\<lparr> expiresAt := None \<rparr>)), ex_store_no_expiry)
     \<and> getValidToken ex_env_refresh_ok (snd (getValidToken ex_env_refresh_fails ex_store_no_expiry))
          = (Inr (accessToken (ex_auth\<lparr> expiresAt := None \<rparr>)), ex_store_no_expiry)"
    by blast
  then have b: "getValidToken ex_env_refresh_fails ex_store_no_expiry = (Inr ''tok-1'', ex_store_no_expiry)
     \<and> getValidToken ex_env_refresh_ok (snd (getValidToken ex_env_refresh_fails ex_store_no_expiry))
        = (Inr ''tok-1'', ex_store_no_expiry)"
    unfolding tk .
  from r a b show ?thesis by blast
qed

text \<open>
  Claim C10. After \<open>removeAuthData\<close> the credential and the cache record are gone: the three
  cache readers return nothing at any clock reading, while the preferences (the whole sync
  area) are as before. It is what \<open>handleLogout\<close> does to the store, and what
  \<open>getValidToken\<close> does to it when the refresh of an expired credential fails.
\<close>

theorem removeAuthData_clears_cache_keeps_preferences:
  "getAuthData (removeAuthData st) = None
   \<and> local_area (removeAuthData st) CACHE = None
   \<and> getCachedUserProfile now (removeAuthData st) = None
   \<and> getCachedDomains now (removeAuthData st) = None
   \<and> getCachedHostsRegex now (removeAuthData st) = None
   \<and> sync_area (removeAuthData st) = sync_area st
   \<and> getPreferences (removeAuthData st) = getPreferences st
   \<and> storage (bg (snd (handleLogout sender env w))) = removeAuthData (storage (bg w))
   \<and> (getAuthData st = Some a \<and> isTokenExpired (dateNow env') a
        \<and> refreshAccessToken env' (clientId a) (clientSecret a) (refreshToken a) = Inl err \<longrightarrow>
        snd (getValidToken env' st) = removeAuthData st)"
proof -
  have a: "getAuthData (removeAuthData st) = None
   \<and> local_area (removeAuthData st) CACHE = None
   \<and> getCachedUserProfile now (removeAuthData st) = None
   \<and> getCachedDomains now (removeAuthData st) = None
   \<and> getCachedHostsRegex now (removeAuthData st) = None
   \<and> sync_area (removeAuthData st) = sync_area st
   \<and> getPreferences (removeAuthData st) = getPreferences st"
    by (simp add: getAuthData_removeAuthData getCache_removeAuthData sync_area_removeAuthData
          getCachedUserProfile_def getCachedDomains_def getCachedHostsRegex_def empty_cache_def
          getPreferences_def)
       (simp add: removeAuthData_def clearCache_def)
  have b: "storage (bg (snd (handleLogout sender env w))) = removeAuthData (storage (bg w))"
    by (simp add: handleLogout_def with_storage_def)
  have c: "getAuthData st = Some a \<and> isTokenExpired (dateNow env') a
        \<and> refreshAccessToken env' (clientId a) (clientSecret a) (refreshToken a) = Inl err \<longrightarrow>
        snd (getValidToken env' st) = removeAuthData st"
    by (simp add: getValidToken_def)
  from a b c show ?thesis by blast
qed

theorem removeAuthData_clears_cache_witness:
  "getCachedUserProfile 5000 ex_store = Some ex_profile
   \<and> getCachedUserProfile 5000 (removeAuthData ex_store) = None
   \<and> getCachedDomains 5000 (removeAuthData ex_store) = None
   \<and> getCachedHostsRegex 5000 (removeAuthData ex_store) = None
   \<and> getPreferences (removeAuthData ex_store) = getPreferences ex_store
   \<and> theme (getPreferences ex_store) = dark"
proof -
  have before: "getCachedUserProfile 5000 ex_store = Some ex_profile"
    by (simp add: getCachedUserProfile_def getCache_def ex_store_def ex_cache_def CACHE_def
          AUTH_DATA_def CACHE_TTL_def)
  have prefs: "theme (getPreferences ex_store) = dark"
    by (simp add: getPreferences_def ex_store_def PREFERENCES_def merge_preferences_def
          ex_prefs_def DEFAULT_PREFERENCES_def)
  from removeAuthData_clears_cache_keeps_preferences[of ex_store 5000] before prefs
  show ?thesis by blast
qed

section \<open>Torrent polling\<close>

lemma processTorrents_frame:
  "processTorrents ts s n ids = (s', n', ids') \<Longrightarrow>
     storage s' = storage s \<and> alarms s' = alarms s \<and> pollCalls s' = pollCalls s"
proof (induction ts arbitrary: s n ids)
  case Nil
  then show ?case by simp
next
  case (Cons t ts)
  then show ?case
    by (fastforce simp: Let_def showTorrentCompletedNotification_def split: if_splits)
qed

lemma processTorrents_count:
  "processTorrents ts s n ids = (s', n', ids') \<Longrightarrow>
     n' = n + length (filter (\<lambda>t. isActiveTorrent (status t)) ts)
     \<and> ids' = ids \<union> torrent_id ` set ts"
proof (induction ts arbitrary: s n ids)
  case Nil
  then show ?case by simp
next
  case (Cons t ts)
  from Cons.prems show ?case
    by (auto simp: Let_def dest!: Cons.IH split: if_splits)
qed

lemma delete_as_filter: "AList.delete k m = filter (\<lambda>p. fst p \<noteq> k) m"
  by (induction m) auto

lemma prune_fold:
  "fold (\<lambda>i m. if i \<notin> ids then AList.delete i m else m) ks m
     = filter (\<lambda>p. fst p \<in> ids \<or> fst p \<notin> set ks) m"
proof (induction ks arbitrary: m)
  case Nil
  then show ?case by simp
next
  case (Cons k ks)
  show ?case
    by (auto simp: Cons.IH delete_as_filter intro!: filter_cong)
qed

lemma pruneKnownTorrents_filter:
  "pruneKnownTorrents ids known = filter (\<lambda>p. fst p \<in> ids) known"
  unfolding pruneKnownTorrents_def prune_fold
  by (rule filter_cong) auto

lemma count_show_other:
  "torrent_id t \<noteq> j \<Longrightarrow>
     completion_notifications j (effects (showTorrentCompletedNotification t s))
       = completion_notifications j (effects s)"
  by (auto simp: showTorrentCompletedNotification_def completion_notifications_def Let_def)

lemma count_show_same:
  "torrent_id t = j \<Longrightarrow>
     completion_notifications j (effects (showTorrentCompletedNotification t s))
       = completion_notifications j (effects s)
         + (if notificationsEnabled (getPreferences (storage s)) then 1 else 0)"
  by (auto simp: showTorrentCompletedNotification_def completion_notifications_def Let_def)

lemma known_show: "knownTorrents (showTorrentCompletedNotification t s) = knownTorrents s"
  by (simp add: showTorrentCompletedNotification_def Let_def)

lemma storage_show: "storage (showTorrentCompletedNotification t s) = storage s"
  by (simp add: showTorrentCompletedNotification_def Let_def)

lemma processTorrents_settled:
  assumes "map_of (knownTorrents s) j = None \<or> map_of (knownTorrents s) j = Some downloaded"
      and "\<forall>t\<in>set ts. torrent_id t = j \<longrightarrow> status t = downloaded"
  shows "completion_notifications j (effects (fst (processTorrents ts s n ids)))
           = completion_notifications j (effects s)"
  using assms
proof (induction ts arbitrary: s n ids)
  case Nil
  then show ?case by simp
next
  case (Cons t ts)
  show ?case
  proof (cases "torrent_id t = j")
    case True
    with Cons.prems have st: "status t = downloaded" by simp
    have no: "\<not> (map_of (knownTorrents s) (torrent_id t) \<noteq> None
                 \<and> map_of (knownTorrents s) (torrent_id t) \<noteq> Some downloaded
                 \<and> status t = downloaded)"
      using Cons.prems(1) True by auto
    let ?s2 = "s\<lparr> knownTorrents := AList.update (torrent_id t) (status t) (knownTorrents s) \<rparr>"
    have k: "map_of (knownTorrents ?s2) j = Some downloaded"
      using True st by (simp add: update_conv')
    have "completion_notifications j (effects (fst (processTorrents ts ?s2 n' ids')))
            = completion_notifications j (effects ?s2)" for n' ids'
      using Cons.IH[of ?s2 n' ids'] k Cons.prems(2) by simp
    then show ?thesis using no by (auto simp: Let_def)
  next
    case False
    let ?s1 = "if map_of (knownTorrents s) (torrent_id t) \<noteq> None
                 \<and> map_of (knownTorrents s) (torrent_id t) \<noteq> Some downloaded
                 \<and> status t = downloaded
               then showTorrentCompletedNotification t s else s"
    let ?s2 = "?s1\<lparr> knownTorrents := AList.update (torrent_id t) (status t) (knownTorrents ?s1) \<rparr>"
    have k: "map_of (knownTorrents ?s2) j = map_of (knownTorrents s) j"
      using False by (simp add: update_conv' known_show)
    have e: "completion_notifications j (effects ?s2) = completion_notifications j (effects s)"
      using False by (simp add: count_show_other)
    have "completion_notifications j (effects (fst (processTorrents ts ?s2 n' ids')))
            = completion_notifications j (effects ?s2)" for n' ids'
      using Cons.IH[of ?s2 n' ids'] k Cons.prems by simp
    then show ?thesis using e by (simp add: Let_def)
  qed
qed

lemma processTorrents_completes_once:
  assumes "map_of (knownTorrents s) j = Some prev" and "prev \<noteq> downloaded"
      and "j \<in> torrent_id ` set ts"
      and "\<forall>t\<in>set ts. torrent_id t = j \<longrightarrow> status t = downloaded"
  shows "completion_notifications j (effects (fst (processTorrents ts s n ids)))
           = completion_notifications j (effects s)
             + (if notificationsEnabled (getPreferences (storage s)) then 1 else 0)"
  using assms
proof (induction ts arbitrary: s n ids)
  case Nil
  then show ?case by simp
next
  case (Cons t ts)
  show ?case
  proof (cases "torrent_id t = j")
    case True
    with Cons.prems have st: "status t = downloaded" by simp
    let ?s1 = "showTorrentCompletedNotification t s"
    let ?s2 = "?s1\<lparr> knownTorrents := AList.update (torrent_id t) (status t) (knownTorrents ?s1) \<rparr>"
    have k: "map_of (knownTorrents ?s2) j = None \<or> map_of (knownTorrents ?s2) j = Some downloaded"
      using True st by (simp add: update_conv')
    have rest: "completion_notifications j (effects (fst (processTorrents ts ?s2 n' ids')))
            = completion_notifications j (effects ?s2)" for n' ids'
      using processTorrents_settled[OF k, of ts n' ids'] Cons.prems(4) by simp
    have e: "completion_notifications j (effects ?s2)
               = completion_notifications j (effects s)
                 + (if notificationsEnabled (getPreferences (storage s)) then 1 else 0)"
      using count_show_same[OF True, of s] by simp
    show ?thesis using Cons.prems(1,2) True st rest e by (simp add: Let_def)
  next
    case False
    let ?s1 = "if map_of (knownTorrents s) (torrent_id t) \<noteq> None
                 \<and> map_of (knownTorrents s) (torrent_id t) \<noteq> Some downloaded
                 \<and> status t = downloaded
               then showTorrentCompletedNotification t s else s"
    let ?s2 = "?s1\<lparr> knownTorrents := AList.update (torrent_id t) (status t) (knownTorrents ?s1) \<rparr>"
    have k: "map_of (knownTorrents ?s2) j = Some prev"
      using False Cons.prems(1) by (simp add: update_conv' known_show)
    have e: "completion_notifications j (effects ?s2) = completion_notifications j (effects s)"
      using False by (simp add: count_show_other)
    have stg: "storage ?s2 = storage s" by (simp add: storage_show)
    have mem: "j \<in> torrent_id ` set ts" using Cons.prems(3) False by auto
    have "completion_notifications j (effects (fst (processTorrents ts ?s2 n' ids')))
            = completion_notifications j (effects ?s2)
              + (if notificationsEnabled (getPreferences (storage ?s2)) then 1 else 0)" for n' ids'
      using Cons.IH[OF k Cons.prems(2) mem, of n' ids'] Cons.prems(4) by simp
    then show ?thesis using e stg by (simp add: Let_def)
  qed
qed

lemma count_updateBadge:
  "completion_notifications j (effects (updateBadge n s)) = completion_notifications j (effects s)"
  by (simp add: updateBadge_def completion_notifications_def)

lemma count_stopPolling:
  "completion_notifications j (effects (stopPolling env s)) = completion_notifications j (effects s)"
  by (simp add: stopPolling_def updateBadge_def completion_notifications_def)

lemma known_updateBadge: "knownTorrents (updateBadge n s) = knownTorrents s"
  by (simp add: updateBadge_def)

lemma known_stopPolling: "knownTorrents (stopPolling env s) = knownTorrents s"
  by (simp add: stopPolling_def updateBadge_def)

lemma pollCalls_updateBadge: "pollCalls (updateBadge n s) = pollCalls s"
  by (simp add: updateBadge_def)

lemma pollCalls_stopPolling: "pollCalls (stopPolling env s) = pollCalls s"
  by (simp add: stopPolling_def updateBadge_def)

lemma getPreferences_sync: "sync_area st = sync_area st' \<Longrightarrow> getPreferences st = getPreferences st'"
  by (simp add: getPreferences_def)

lemma pollTorrents_fetched:
  assumes "isAuthenticated (storage s)"
      and "getValidToken env (storage s) = (Inr tk, st1)"
      and "listTorrents env tk 100 = Inr torrents"
      and "processTorrents torrents (s\<lparr> pollCalls := pollCalls s + 1, storage := st1 \<rparr>) 0 {} = (s2, n, ids)"
  shows "pollTorrents env s =
           (let s4 = updateBadge n (s2\<lparr> knownTorrents := pruneKnownTorrents ids (knownTorrents s2) \<rparr>)
            in if n = 0 then stopPolling env s4 else s4)"
  using assms by (simp add: pollTorrents_def Let_def)

lemma processTorrents_without:
  assumes "j \<notin> torrent_id ` set ts"
      and "processTorrents ts s n ids = (s', n', ids')"
  shows "processTorrents ts (s\<lparr> knownTorrents := AList.delete j (knownTorrents s) \<rparr>) n ids
           = (s'\<lparr> knownTorrents := AList.delete j (knownTorrents s') \<rparr>, n', ids')"
  using assms
proof (induction ts arbitrary: s n ids)
  case Nil
  then show ?case by simp
next
  case (Cons t ts)
  from Cons.prems(1) have ne: "torrent_id t \<noteq> j" and rest: "j \<notin> torrent_id ` set ts"
    by auto
  have look: "map_of (AList.delete j (knownTorrents s)) (torrent_id t)
                = map_of (knownTorrents s) (torrent_id t)"
    using ne by (simp add: delete_conv')
  have upd: "AList.delete j (AList.update (torrent_id t) v al)
               = AList.update (torrent_id t) v (AList.delete j al)" for v al
    using ne by (simp add: delete_update)
  let ?c = "map_of (knownTorrents s) (torrent_id t) \<noteq> None
            \<and> map_of (knownTorrents s) (torrent_id t) \<noteq> Some downloaded
            \<and> status t = downloaded"
  let ?s1 = "if ?c then showTorrentCompletedNotification t s else s"
  let ?s2 = "?s1\<lparr> knownTorrents := AList.update (torrent_id t) (status t) (knownTorrents ?s1) \<rparr>"
  let ?n = "if isActiveTorrent (status t) then n + 1 else n"
  have step: "processTorrents (t # ts) s0 n ids
      = processTorrents ts
          ((if map_of (knownTorrents s0) (torrent_id t) \<noteq> None
               \<and> map_of (knownTorrents s0) (torrent_id t) \<noteq> Some downloaded
               \<and> status t = downloaded
            then showTorrentCompletedNotification t s0 else s0)
           \<lparr> knownTorrents := AList.update (torrent_id t) (status t)
               (knownTorrents (if map_of (knownTorrents s0) (torrent_id t) \<noteq> None
                   \<and> map_of (knownTorrents s0) (torrent_id t) \<noteq> Some downloaded
                   \<and> status t = downloaded
                 then showTorrentCompletedNotification t s0 else s0)) \<rparr>)
          ?n (insert (torrent_id t) ids)" for s0
    by (simp add: Let_def)
  have run: "processTorrents ts ?s2 ?n (insert (torrent_id t) ids) = (s', n', ids')"
    using Cons.prems(2) unfolding step .
  have eq: "(if map_of (knownTorrents (s\<lparr> knownTorrents := AList.delete j (knownTorrents s) \<rparr>)) (torrent_id t) \<noteq> None
               \<and> map_of (knownTorrents (s\<lparr> knownTorrents := AList.delete j (knownTorrents s) \<rparr>)) (torrent_id t) \<noteq> Some downloaded
               \<and> status t = downloaded
            then showTorrentCompletedNotification t (s\<lparr> knownTorrents := AList.delete j (knownTorrents s) \<rparr>)
            else s\<lparr> knownTorrents := AList.delete j (knownTorrents s) \<rparr>)
           \<lparr> knownTorrents := AList.update (torrent_id t) (status t)
               (knownTorrents (if map_of (knownTorrents (s\<lparr> knownTorrents := AList.delete j (knownTorrents s) \<rparr>)) (torrent_id t) \<noteq> None
                   \<and> map_of (knownTorrents (s\<lparr> knownTorrents := AList.delete j (knownTorrents s) \<rparr>)) (torrent_id t) \<noteq> Some downloaded
                   \<and> status t = downloaded
                 then showTorrentCompletedNotification t (s\<lparr> knownTorrents := AList.delete j (knownTorrents s) \<rparr>)
                 else s\<lparr> knownTorrents := AList.delete j (knownTorrents s) \<rparr>)) \<rparr>
        = ?s2\<lparr> knownTorrents := AList.delete j (knownTorrents ?s2) \<rparr>"
    using look by (simp add: upd showTorrentCompletedNotification_def Let_def)
  show ?case
    unfolding step eq using Cons.IH[OF rest run] .
qed

lemma prune_delete:
  "j \<notin> ids \<Longrightarrow> pruneKnownTorrents ids (AList.delete j known) = pruneKnownTorrents ids known"
  by (auto simp: pruneKnownTorrents_filter delete_as_filter intro!: filter_cong)

lemma pollCalls_pollTorrents: "pollCalls (pollTorrents env s) = pollCalls s + 1"
proof -
  have frame: "pollCalls (fst (processTorrents ts s0 n ids)) = pollCalls s0" for ts s0 n ids
    using processTorrents_frame[of ts s0 n ids] by (cases "processTorrents ts s0 n ids") auto
  show ?thesis
    using frame
    by (auto simp: pollTorrents_def Let_def pollCalls_stopPolling pollCalls_updateBadge
          split: prod.splits sum.splits dest!: processTorrents_frame)
qed

lemma ex_bg_auth: "isAuthenticated (storage ex_bg)"
  by (simp add: isAuthenticated_def ex_bg_def ex_getAuthData_no_expiry ex_auth_def)

lemma ex_bg_token: "getValidToken ex_poll_env (storage ex_bg) = (Inr ''tok-1'', ex_store_no_expiry)"
  by (simp add: getValidToken_def ex_bg_def ex_getAuthData_no_expiry isTokenExpired_def ex_auth_def)

lemma ex_bg_listing: "listTorrents ex_poll_env ''tok-1'' 100 = Inr ex_torrents"
  by (simp add: ex_poll_env_def)

lemma ex_known_after_poll:
  "knownTorrents (pollTorrents ex_poll_env ex_bg)
     = [(''T1'', downloaded), (''T2'', downloading), (''T3'', downloaded)]"
proof -
  have pt: "processTorrents ex_torrents
              (ex_bg\<lparr> pollCalls := pollCalls ex_bg + 1, storage := ex_store_no_expiry \<rparr>) 0 {}
            = (fst (processTorrents ex_torrents
                 (ex_bg\<lparr> pollCalls := pollCalls ex_bg + 1, storage := ex_store_no_expiry \<rparr>) 0 {}),
               1, {''T1'', ''T2'', ''T3''})"
    by (simp add: ex_torrents_def Let_def isActiveTorrent_def ACTIVE_STATUSES_def
          insert_commute)
  have kn: "knownTorrents (fst (processTorrents ex_torrents
                 (ex_bg\<lparr> pollCalls := pollCalls ex_bg + 1, storage := ex_store_no_expiry \<rparr>) 0 {}))
            = [(''T1'', downloaded), (''T9'', queued), (''T2'', downloading), (''T3'', downloaded)]"
    by (simp add: ex_torrents_def Let_def ex_bg_def known_show)
  show ?thesis
    unfolding pollTorrents_fetched[OF ex_bg_auth ex_bg_token ex_bg_listing pt]
    by (simp add: Let_def known_updateBadge kn[simplified] pruneKnownTorrents_filter)
qed

text \<open>
  Claim C1. In a polling tick whose listing was fetched, take a job that the listing
  reports as \<open>downloaded\<close> (every entry of the listing with that identifier has this
  status). If the snapshot table held a status other than \<open>downloaded\<close> for it, the tick
  makes exactly one more completion notification for the job when notifications are
  enabled in the preferences, and none when they are disabled. If the table had no entry
  for it (first observation), the tick makes no completion notification for it.
\<close>

theorem completion_notified_once:
  assumes auth: "isAuthenticated (storage s)"
      and tok: "getValidToken env (storage s) = (Inr tk, st1)"
      and lst: "listTorrents env tk 100 = Inr torrents"
      and listed: "j \<in> torrent_id ` set torrents"
      and fetched_downloaded: "\<forall>t\<in>set torrents. torrent_id t = j \<longrightarrow> status t = downloaded"
  shows "(\<forall>prev. map_of (knownTorrents s) j = Some prev \<and> prev \<noteq> downloaded \<longrightarrow>
            completion_notifications j (effects (pollTorrents env s))
              = completion_notifications j (effects s)
                + (if notificationsEnabled (getPreferences (storage s)) then 1 else 0))
       \<and> (map_of (knownTorrents s) j = None \<longrightarrow>
            completion_notifications j (effects (pollTorrents env s))
              = completion_notifications j (effects s))"
proof -
  let ?s1 = "s\<lparr> pollCalls := pollCalls s + 1, storage := st1 \<rparr>"
  obtain s2 n ids where pt: "processTorrents torrents ?s1 0 {} = (s2, n, ids)"
    by (cases "processTorrents torrents ?s1 0 {}") auto
  have poll: "completion_notifications j (effects (pollTorrents env s))
                = completion_notifications j (effects s2)"
    unfolding pollTorrents_fetched[OF auth tok lst pt]
    by (simp add: Let_def count_stopPolling count_updateBadge)
  have s2: "s2 = fst (processTorrents torrents ?s1 0 {})" using pt by simp
  have "sync_area st1 = sync_area (storage s)"
    using sync_area_getValidToken[of env "storage s"] tok by simp
  then have prefs: "getPreferences (storage ?s1) = getPreferences (storage s)"
    by (intro getPreferences_sync) simp
  have once: "completion_notifications j (effects s2)
                = completion_notifications j (effects s)
                  + (if notificationsEnabled (getPreferences (storage s)) then 1 else 0)"
    if "map_of (knownTorrents s) j = Some prev" "prev \<noteq> downloaded" for prev
    using processTorrents_completes_once[of ?s1 j prev torrents 0 "{}"] that listed
      fetched_downloaded prefs s2 by simp
  have none: "completion_notifications j (effects s2) = completion_notifications j (effects s)"
    if "map_of (knownTorrents s) j = None"
    using processTorrents_settled[of ?s1 j torrents 0 "{}"] that fetched_downloaded s2 by simp
  show ?thesis
  proof (intro conjI allI impI)
    fix prev
    assume "map_of (knownTorrents s) j = Some prev \<and> prev \<noteq> downloaded"
    then show "completion_notifications j (effects (pollTorrents env s))
                 = completion_notifications j (effects s)
                   + (if notificationsEnabled (getPreferences (storage s)) then 1 else 0)"
      using once[of prev] poll by simp
  next
    assume "map_of (knownTorrents s) j = None"
    then show "completion_notifications j (effects (pollTorrents env s))
                 = completion_notifications j (effects s)"
      using none poll by simp
  qed
qed

theorem completion_notified_once_witness:
  "map_of (knownTorrents ex_bg) ''T1'' = Some downloading
   \<and> completion_notifications ''T1'' (effects (pollTorrents ex_poll_env ex_bg)) = 1
   \<and> map_of (knownTorrents ex_bg) ''T3'' = None
   \<and> completion_notifications ''T3'' (effects (pollTorrents ex_poll_env ex_bg)) = 0"
proof -
  have k1: "map_of (knownTorrents ex_bg) ''T1'' = Some downloading"
    and k3: "map_of (knownTorrents ex_bg) ''T3'' = None"
    and e0: "effects ex_bg = []"
    by (simp_all add: ex_bg_def)
  have l1: "''T1'' \<in> torrent_id ` set ex_torrents" and l3: "''T3'' \<in> torrent_id ` set ex_torrents"
    by (simp_all add: ex_torrents_def)
  have d1: "\<forall>t\<in>set ex_torrents. torrent_id t = ''T1'' \<longrightarrow> status t = downloaded"
    and d3: "\<forall>t\<in>set ex_torrents. torrent_id t = ''T3'' \<longrightarrow> status t = downloaded"
    by (simp_all add: ex_torrents_def)
  have on: "notificationsEnabled (getPreferences (storage ex_bg))"
    by (simp add: ex_bg_def ex_store_no_expiry_def setAuthData_def ex_store_def getPreferences_def
          PREFERENCES_def merge_preferences_def ex_prefs_def)
  from completion_notified_once[OF ex_bg_auth ex_bg_token ex_bg_listing l1 d1] k1 on e0
  have a: "completion_notifications ''T1'' (effects (pollTorrents ex_poll_env ex_bg)) = 1"
    by (simp add: completion_notifications_def)
  from completion_notified_once[OF ex_bg_auth ex_bg_token ex_bg_listing l3 d3] k3 e0
  have b: "completion_notifications ''T3'' (effects (pollTorrents ex_poll_env ex_bg)) = 0"
    by (simp add: completion_notifications_def)
  from k1 k3 a b show ?thesis by simp
qed

text \<open>
  Claim C5. In a polling tick whose listing was fetched, a job identifier that the listing
  does not contain has no entry in the snapshot table at the end of the tick. The active
  count of the tick is the number of listing entries with an active status, so such a job
  adds nothing to it; and the whole outcome of the tick is the same as if the job's entry
  had been deleted from the table before the tick.
\<close>

theorem absent_job_pruned:
  assumes auth: "isAuthenticated (storage s)"
      and tok: "getValidToken env (storage s) = (Inr tk, st1)"
      and lst: "listTorrents env tk 100 = Inr torrents"
      and absent: "j \<notin> torrent_id ` set torrents"
  shows "map_of (knownTorrents (pollTorrents env s)) j = None
       \<and> j \<notin> fst ` set (knownTorrents (pollTorrents env s))
       \<and> fst (snd (processTorrents torrents (s\<lparr> pollCalls := pollCalls s + 1, storage := st1 \<rparr>) 0 {}))
           = length (filter (\<lambda>t. isActiveTorrent (status t)) torrents)
       \<and> pollTorrents env (s\<lparr> knownTorrents := AList.delete j (knownTorrents s) \<rparr>) = pollTorrents env s"
proof -
  let ?s1 = "s\<lparr> pollCalls := pollCalls s + 1, storage := st1 \<rparr>"
  obtain s2 n ids where pt: "processTorrents torrents ?s1 0 {} = (s2, n, ids)"
    by (cases "processTorrents torrents ?s1 0 {}") auto
  from processTorrents_count[OF pt]
  have n: "n = length (filter (\<lambda>t. isActiveTorrent (status t)) torrents)"
    and ids: "ids = torrent_id ` set torrents" by auto
  have known: "knownTorrents (pollTorrents env s) = pruneKnownTorrents ids (knownTorrents s2)"
    unfolding pollTorrents_fetched[OF auth tok lst pt]
    by (simp add: Let_def known_stopPolling known_updateBadge)
  have notin: "j \<notin> fst ` set (knownTorrents (pollTorrents env s))"
    unfolding known pruneKnownTorrents_filter using absent ids by auto
  then have none: "map_of (knownTorrents (pollTorrents env s)) j = None"
    by (simp add: map_of_eq_None_iff)
  let ?d = "s\<lparr> knownTorrents := AList.delete j (knownTorrents s) \<rparr>"
  have eqrec: "?d\<lparr> pollCalls := pollCalls ?d + 1, storage := st1 \<rparr>
                 = ?s1\<lparr> knownTorrents := AList.delete j (knownTorrents ?s1) \<rparr>"
    by simp
  have pt': "processTorrents torrents (?d\<lparr> pollCalls := pollCalls ?d + 1, storage := st1 \<rparr>) 0 {}
               = (s2\<lparr> knownTorrents := AList.delete j (knownTorrents s2) \<rparr>, n, ids)"
    unfolding eqrec using processTorrents_without[OF absent pt] .
  have same: "pollTorrents env ?d = pollTorrents env s"
    unfolding pollTorrents_fetched[OF auth tok lst pt]
    using pollTorrents_fetched[of ?d env tk st1 torrents, OF _ _ lst pt'] auth tok
      prune_delete[of j ids "knownTorrents s2"] absent ids
    by simp
  show ?thesis using none notin n pt same by simp
qed

theorem absent_job_pruned_witness:
  "map_of (knownTorrents ex_bg) ''T9'' = Some queued
   \<and> map_of (knownTorrents (pollTorrents ex_poll_env ex_bg)) ''T9'' = None
   \<and> fst (snd (processTorrents ex_torrents
         (ex_bg\<lparr> pollCalls := pollCalls ex_bg + 1, storage := ex_store_no_expiry \<rparr>) 0 {})) = 1"
proof -
  have k9: "map_of (knownTorrents ex_bg) ''T9'' = Some queued"
    by (simp add: ex_bg_def)
  have absent: "''T9'' \<notin> torrent_id ` set ex_torrents"
    by (simp add: ex_torrents_def)
  have cnt: "length (filter (\<lambda>t. isActiveTorrent (status t)) ex_torrents) = 1"
    by (simp add: ex_torrents_def isActiveTorrent_def ACTIVE_STATUSES_def)
  from absent_job_pruned[OF ex_bg_auth ex_bg_token ex_bg_listing absent] k9 cnt
  show ?thesis by simp
qed

text \<open>
  Claim C6 as stated fails: with the alarm present, \<open>startPolling\<close> does not evaluate a
  poll. The call counter is not advanced and the snapshot table keeps its old content,
  whereas a poll on the same input would have rewritten the table.
\<close>

theorem startPolling_existing_alarm_counterexample:
  "alarms ex_bg POLLING_ALARM_NAME = Some POLLING_INTERVAL_MINUTES
   \<and> pollCalls (startPolling ex_poll_env ex_bg) \<noteq> pollCalls ex_bg + 1
   \<and> knownTorrents (startPolling ex_poll_env ex_bg) = [(''T1'', downloading), (''T9'', queued)]
   \<and> knownTorrents (pollTorrents ex_poll_env ex_bg)
       = [(''T1'', downloaded), (''T2'', downloading), (''T3'', downloaded)]"
proof -
  have al: "alarms ex_bg POLLING_ALARM_NAME = Some POLLING_INTERVAL_MINUTES"
    by (simp add: ex_bg_def)
  then have same: "startPolling ex_poll_env ex_bg = ex_bg"
    by (simp add: startPolling_def ex_poll_env_def)
  have kn: "knownTorrents ex_bg = [(''T1'', downloading), (''T9'', queued)]"
    by (simp add: ex_bg_def)
  show ?thesis using al same kn ex_known_after_poll by simp
qed

text \<open>
  Claim C6, as amended. When the polling alarm exists, \<open>startPolling\<close> changes nothing at
  all: no poll is evaluated, no alarm is created, the existing alarm stays as it is. The
  one immediate poll is made by a call that finds alarm support and no alarm, before it
  creates the alarm. Hence a second \<open>startPolling\<close> after a first changes nothing.
\<close>

theorem startPolling_existing_alarm:
  "(alarms s POLLING_ALARM_NAME = Some a \<longrightarrow> startPolling env s = s)
   \<and> (hasAlarmsSupport env \<and> alarms s POLLING_ALARM_NAME = None \<longrightarrow>
        pollCalls (startPolling env s) = pollCalls s + 1
        \<and> alarms (startPolling env s) POLLING_ALARM_NAME = Some POLLING_INTERVAL_MINUTES)
   \<and> startPolling env (startPolling env s) = startPolling env s"
  by (auto simp: startPolling_def Let_def pollCalls_pollTorrents split: option.splits)

theorem startPolling_existing_alarm_witness:
  "startPolling ex_poll_env ex_bg = ex_bg
   \<and> pollCalls (startPolling ex_poll_env (ex_bg\<lparr> alarms := Map.empty \<rparr>)) = 1
   \<and> alarms (startPolling ex_poll_env (ex_bg\<lparr> alarms := Map.empty \<rparr>)) POLLING_ALARM_NAME
       = Some POLLING_INTERVAL_MINUTES"
proof -
  have al: "alarms ex_bg POLLING_ALARM_NAME = Some POLLING_INTERVAL_MINUTES"
    and sup: "hasAlarmsSupport ex_poll_env" and pc: "pollCalls ex_bg = 0"
    by (simp_all add: ex_bg_def ex_poll_env_def)
  from startPolling_existing_alarm[of ex_bg POLLING_INTERVAL_MINUTES ex_poll_env] al
  have a: "startPolling ex_poll_env ex_bg = ex_bg" by simp
  from startPolling_existing_alarm[of "ex_bg\<lparr> alarms := Map.empty \<rparr>" _ ex_poll_env] sup pc
  have b: "pollCalls (startPolling ex_poll_env (ex_bg\<lparr> alarms := Map.empty \<rparr>)) = 1
     \<and> alarms (startPolling ex_poll_env (ex_bg\<lparr> alarms := Map.empty \<rparr>)) POLLING_ALARM_NAME
       = Some POLLING_INTERVAL_MINUTES"
    by simp
  from a b show ?thesis by simp
qed

section \<open>The API client\<close>

lemma appendParams_eq: "appendParams entries params = params @ kept_entries entries"
  by (induction entries params rule: appendParams.induct) (auto simp: kept_entries_def)

lemma encodeBody_thrown: "encodeBody h b = Inl err \<Longrightarrow> b = Some (PrimitiveBody JNull)"
  by (auto simp: encodeBody_def split: option.splits RequestBody.splits if_splits)

lemma encodeBody_null:
  "encodeBody h (Some (PrimitiveBody JNull)) = Inl (Error ''Cannot convert undefined or null to object'')"
  by (simp add: encodeBody_def)

lemma encodeBody_sendable:
  assumes "b \<noteq> Some (PrimitiveBody JNull)"
  shows "\<exists>hs payload. encodeBody h b = Inr (hs, payload)"
  using assms
  by (auto simp: encodeBody_def split: option.splits RequestBody.splits)

text \<open>
  A null body: \<open>Object.entries(null)\<close> throws before \<open>trackRequest\<close> and \<open>fetch\<close>, so the
  call fails with the \<open>TypeError\<close>, nothing is sent and no timestamp is recorded.
\<close>

lemma request_null_body:
  assumes "authorized options" and "body options = Some (PrimitiveBody JNull)"
  shows "result (request now env options tss)
           = Inl (Error ''Cannot convert undefined or null to object'')
       \<and> dispatched (request now env options tss) = None
       \<and> timestamps (request now env options tss) = snd (waitForRateLimit now tss)"
  using assms
  by (auto simp: request_def request_resume_def authorized_def Let_def encodeBody_null
           split: prod.splits option.splits)

lemma request_dispatched:
  assumes "authorized options"
      and "encodeBody (if skipAuth options then []
                       else [(''Authorization'', ''Bearer '' @ the (token options))])
             (body options) = Inr (hs, payload)"
  shows "dispatched (request now env options tss)
           = Some (BASE_URL @ path options,
                   \<lparr> fetch_method = http_method options, fetch_headers = hs,
                     fetch_body = payload \<rparr>)"
  using assms
  by (auto simp: request_def request_resume_def authorized_def Let_def
           split: prod.splits option.splits)

lemma request_sendable_dispatched:
  assumes "sendable options"
  shows "\<exists>fo. dispatched (request now env options tss) = Some (BASE_URL @ path options, fo)"
proof -
  from assms have a: "authorized options" and b: "body options \<noteq> Some (PrimitiveBody JNull)"
    by (simp_all add: sendable_def)
  from encodeBody_sendable[OF b] obtain hs payload where
    "encodeBody (if skipAuth options then []
                 else [(''Authorization'', ''Bearer '' @ the (token options))])
       (body options) = Inr (hs, payload)"
    by blast
  from request_dispatched[OF a this] show ?thesis by blast
qed

lemma request_result:
  assumes "dispatched (request now env options tss) = Some (target, fo)"
  shows "result (request now env options tss)
           = (case fetch env target fo of Inl err \<Rightarrow> Inl err | Inr response \<Rightarrow> readResponse response)"
  using assms
  by (auto simp: request_def request_resume_def Let_def
           split: prod.splits option.splits if_splits sum.splits)

lemma ex_authorized: "authorized ex_options"
  by (simp add: authorized_def ex_options_def)

lemma ex_sendable: "sendable ex_options"
  by (simp add: sendable_def authorized_def ex_options_def)

lemma string_of_nat_503: "string_of_nat 503 = ''503''"
  by (simp add: digit_char_def string_of_nat.simps[of 503] string_of_nat.simps[of 50]
        string_of_nat.simps[of 5])

text \<open>
  Claim C8. For a request that was handed to \<open>fetch\<close> and answered: with a non-success
  status and a JSON content type, an error payload with a message makes the call fail with
  that message, the status and the payload's optional code (a payload without a message
  gives "Unknown API error"); with a non-success status and no JSON content type the call
  fails with the message \<open>HTTP <status>: <statusText>\<close>; with a success status that is 204
  or has no JSON content type the call returns the empty object.
\<close>

theorem request_response_normalization:
  assumes "dispatched (request now env options tss) = Some (target, fo)"
      and "fetch env target fo = Inr r"
  shows "(\<not> response_ok r \<and> hasJson r \<and> json r = Inr (ApiErrorBody e) \<and> error_text e \<noteq> [] \<longrightarrow>
            result (request now env options tss)
              = Inl (RealDebridApiError (error_text e) (http_status r) (error_code e)))
       \<and> (\<not> response_ok r \<and> hasJson r \<and> json r = Inr b \<and> error_text (as_ApiError b) = [] \<longrightarrow>
            result (request now env options tss)
              = Inl (RealDebridApiError ''Unknown API error'' (http_status r) (error_code (as_ApiError b))))
       \<and> (\<not> response_ok r \<and> \<not> hasJson r \<longrightarrow>
            result (request now env options tss)
              = Inl (RealDebridApiError (''HTTP '' @ string_of_nat (http_status r) @ '': '' @ statusText r)
                       (http_status r) None))
       \<and> (response_ok r \<and> (http_status r = 204 \<or> \<not> hasJson r) \<longrightarrow>
            result (request now env options tss) = Inr EmptyObject)"
  unfolding request_result[OF assms(1)] assms(2)
  by (auto simp: readResponse_def Let_def)

theorem request_response_normalization_witness:
  "result (request 1000 (ex_request_env ex_response_error) ex_options [])
     = Inl (RealDebridApiError ''permission_denied'' 403 (Some 9))
   \<and> result (request 1000 (ex_request_env ex_response_plain) ex_options [])
     = Inl (RealDebridApiError ''HTTP 503: Service Unavailable'' 503 None)
   \<and> result (request 1000 (ex_request_env ex_response_empty) ex_options []) = Inr EmptyObject"
proof -
  have d: "\<exists>fo. dispatched (request 1000 (ex_request_env r) ex_options [])
                 = Some (BASE_URL @ path ex_options, fo)" for r
    by (rule request_sendable_dispatched[OF ex_sendable])
  have f: "fetch (ex_request_env r) target fo = Inr r" for r target fo
    by (simp add: ex_request_env_def)
  have j: "hasJson ex_response_error" "\<not> hasJson ex_response_plain" "\<not> hasJson ex_response_empty"
    by (simp_all add: hasJson_def ex_response_error_def ex_response_plain_def ex_response_empty_def)
  have ok: "\<not> response_ok ex_response_error" "\<not> response_ok ex_response_plain"
    "response_ok ex_response_empty"
    by (simp_all add: response_ok_def ex_response_error_def ex_response_plain_def ex_response_empty_def)
  obtain fo1 where d1: "dispatched (request 1000 (ex_request_env ex_response_error) ex_options [])
      = Some (BASE_URL @ path ex_options, fo1)" using d by blast
  obtain fo2 where d2: "dispatched (request 1000 (ex_request_env ex_response_plain) ex_options [])
      = Some (BASE_URL @ path ex_options, fo2)" using d by blast
  obtain fo3 where d3: "dispatched (request 1000 (ex_request_env ex_response_empty) ex_options [])
      = Some (BASE_URL @ path ex_options, fo3)" using d by blast
  have a: "result (request 1000 (ex_request_env ex_response_error) ex_options [])
             = Inl (RealDebridApiError ''permission_denied'' 403 (Some 9))"
    using request_response_normalization[OF d1 f,
        of "\<lparr> error_text = ''permission_denied'', error_code = Some 9 \<rparr>"] j ok
    by (simp add: ex_response_error_def)
  have st: "http_status ex_response_plain = 503" "statusText ex_response_plain = ''Service Unavailable''"
    by (simp_all add: ex_response_plain_def)
  from request_response_normalization[OF d2 f] j ok
  have "result (request 1000 (ex_request_env ex_response_plain) ex_options [])
          = Inl (RealDebridApiError
                   (''HTTP '' @ string_of_nat (http_status ex_response_plain) @ '': ''
                      @ statusText ex_response_plain)
                   (http_status ex_response_plain) None)"
    by blast
  then have b: "result (request 1000 (ex_request_env ex_response_plain) ex_options [])
             = Inl (RealDebridApiError ''HTTP 503: Service Unavailable'' 503 None)"
    unfolding st string_of_nat_503 by simp
  have c: "result (request 1000 (ex_request_env ex_response_empty) ex_options []) = Inr EmptyObject"
    using request_response_normalization[OF d3 f] j ok
    by (simp add: ex_response_empty_def)
  from a b c show ?thesis by simp
qed

text \<open>
  Claim C9. For an authorized request whose body is an object, the request handed to
  \<open>fetch\<close> has the form content type and, as its body, the serialization of exactly the
  entries whose value is neither undefined nor null, in their order, each value turned
  into its string.
\<close>

theorem request_form_body_entries:
  assumes "authorized options" and "body options = Some (ObjectBody entries)"
  shows "\<exists>target fo. dispatched (request now env options tss) = Some (target, fo)
           \<and> fetch_body fo = Some (TextPayload (params_toString (kept_entries entries)))
           \<and> map_of (fetch_headers fo) ''Content-Type'' = Some ''application/x-www-form-urlencoded''"
proof -
  let ?hs = "if skipAuth options then [] else [(''Authorization'', ''Bearer '' @ the (token options))]"
  have "encodeBody ?hs (body options)
          = Inr (AList.update ''Content-Type'' ''application/x-www-form-urlencoded'' ?hs,
                 Some (TextPayload (params_toString (kept_entries entries))))"
    by (simp add: encodeBody_def assms(2) appendParams_eq)
  from request_dispatched[OF assms(1) this, of now env tss] show ?thesis
    by (simp add: update_conv')
qed

theorem request_form_body_entries_witness:
  "kept_entries [(''link'', JString ''https://h.example/f 1''), (''password'', JUndefined),
                 (''remote'', JNumber 1), (''note'', JNull)]
     = [(''link'', ''https://h.example/f 1''), (''remote'', ''1'')]
   \<and> (\<exists>target fo. dispatched (request 1000 (ex_request_env ex_response_empty) ex_options []) = Some (target, fo)
         \<and> fetch_body fo = Some (TextPayload ''link=https%3A%2F%2Fh.example%2Ff+1&remote=1''))"
proof -
  have k: "kept_entries [(''link'', JString ''https://h.example/f 1''), (''password'', JUndefined),
                 (''remote'', JNumber 1), (''note'', JNull)]
     = [(''link'', ''https://h.example/f 1''), (''remote'', ''1'')]"
    by (simp add: kept_entries_def string_of_int_def digit_char_def string_of_nat.simps[of "Suc 0"])
  have s: "params_toString [(''link'', ''https://h.example/f 1''), (''remote'', ''1'')]
             = ''link=https%3A%2F%2Fh.example%2Ff+1&remote=1''"
    by (simp add: urlencode_def urlencode_byte_def hex_digit_def)
  have b: "body ex_options = Some (ObjectBody [(''link'', JString ''https://h.example/f 1''),
              (''password'', JUndefined), (''remote'', JNumber 1), (''note'', JNull)])"
    by (simp add: ex_options_def)
  from request_form_body_entries[OF ex_authorized b, of 1000 "ex_request_env ex_response_empty" "[]"]
  have "\<exists>target fo. dispatched (request 1000 (ex_request_env ex_response_empty) ex_options []) = Some (target, fo)
         \<and> fetch_body fo = Some (TextPayload (params_toString (kept_entries
               [(''link'', JString ''https://h.example/f 1''), (''password'', JUndefined),
                (''remote'', JNumber 1), (''note'', JNull)])))"
    by blast
  then have "\<exists>target fo. dispatched (request 1000 (ex_request_env ex_response_empty) ex_options []) = Some (target, fo)
         \<and> fetch_body fo = Some (TextPayload ''link=https%3A%2F%2Fh.example%2Ff+1&remote=1'')"
    unfolding k s .
  with k show ?thesis by blast
qed

text \<open>
  The errors that \<open>request\<close> itself raises carry a message; one with which \<open>request\<close>
  fails has an empty message only if \<open>fetch\<close> or \<open>response.json()\<close> failed with such an
  error.
\<close>

lemma request_unauthorized:
  "\<not> authorized opts \<Longrightarrow>
     result (request now env opts tss) = Inl (RealDebridApiError ''Authorization token is required'' 401 None)"
  by (simp add: request_def request_resume_def authorized_def Let_def
        split: prod.splits option.splits)

lemma readResponse_rejection:
  assumes "readResponse r = Inl err" and "\<forall>e. json r = Inl e \<longrightarrow> message e \<noteq> []"
  shows "message err \<noteq> []"
  using assms by (auto simp: readResponse_def Let_def split: if_splits sum.splits)

lemma request_rejection_message:
  assumes rej: "result (request now env opts tss) = Inl err"
      and net: "\<forall>u fo e. fetch env u fo = Inl e \<longrightarrow> message e \<noteq> []"
      and parse: "\<forall>u fo r e. fetch env u fo = Inr r \<longrightarrow> json r = Inl e \<longrightarrow> message e \<noteq> []"
  shows "message err \<noteq> []"
proof (cases "authorized opts")
  case False
  from request_unauthorized[OF False, of now env tss] rej show ?thesis by auto
next
  case True
  show ?thesis
  proof (cases "body opts = Some (PrimitiveBody JNull)")
    case null: True
    from request_null_body[OF True null, of now env tss] rej show ?thesis by auto
  next
    case False
    with True have "sendable opts" by (simp add: sendable_def)
    from request_sendable_dispatched[OF this, of now env tss] obtain u fo where
      d: "dispatched (request now env opts tss) = Some (u, fo)" by blast
    show ?thesis
    proof (cases "fetch env u fo")
      case (Inl e)
      with request_result[OF d] rej net show ?thesis by auto
    next
      case (Inr r)
      with request_result[OF d] rej have "readResponse r = Inl err" by simp
      moreover have "\<forall>e. json r = Inl e \<longrightarrow> message e \<noteq> []" using parse Inr by blast
      ultimately show ?thesis by (rule readResponse_rejection)
    qed
  qed
qed

subsection \<open>The rate limit\<close>

lemma waitForRateLimit_kept:
  "snd (waitForRateLimit now tss) = filter (\<lambda>ts. now - ts < RATE_WINDOW_MS) tss"
  by (simp add: waitForRateLimit_def getRateLimitStatus_def Let_def)

lemma waitForRateLimit_none:
  "length (filter (\<lambda>ts. now - ts < RATE_WINDOW_MS) tss) < 250 \<Longrightarrow> fst (waitForRateLimit now tss) = None"
  by (simp add: waitForRateLimit_def getRateLimitStatus_def Let_def RATE_LIMIT_def)

lemma waitForRateLimit_some:
  assumes "250 \<le> length (filter (\<lambda>ts. now - ts < RATE_WINDOW_MS) tss)"
      and "0 \<notin> set tss"
  shows "\<exists>oldest later. filter (\<lambda>ts. now - ts < RATE_WINDOW_MS) tss = oldest # later
           \<and> fst (waitForRateLimit now tss) = Some (RATE_WINDOW_MS - (now - oldest) + 100)
           \<and> 0 < RATE_WINDOW_MS - (now - oldest)"
proof -
  let ?kept = "filter (\<lambda>ts. now - ts < RATE_WINDOW_MS) tss"
  from assms(1) obtain oldest later where k: "?kept = oldest # later"
    by (cases ?kept) auto
  then have "oldest \<in> set ?kept" by simp
  then have win: "now - oldest < RATE_WINDOW_MS" and nz: "oldest \<noteq> 0"
    using assms(2) by auto
  have "fst (waitForRateLimit now tss) = Some (RATE_WINDOW_MS - (now - oldest) + 100)"
    using assms(1) k win nz
    by (simp add: waitForRateLimit_def getRateLimitStatus_def Let_def RATE_LIMIT_def)
  with k win show ?thesis by simp
qed

lemma request_suspendedFor: "suspendedFor (request now env opts tss) = fst (waitForRateLimit now tss)"
  by (simp add: request_def request_resume_def resume_clock_def Let_def split: prod.splits sum.splits option.splits)

lemma request_finishedAt:
  "finishedAt (request now env opts tss)
     = now + (case fst (waitForRateLimit now tss) of None \<Rightarrow> 0 | Some d \<Rightarrow> d) + int (lateness env)"
  by (simp add: request_def request_resume_def resume_clock_def Let_def split: prod.splits sum.splits option.splits)

lemma request_dispatched_iff: "(dispatched (request now env opts tss) \<noteq> None) = sendable opts"
proof (cases "body opts = Some (PrimitiveBody JNull)")
  case True
  then show ?thesis
    by (auto simp: request_def request_resume_def Let_def sendable_def encodeBody_null
             split: prod.splits sum.splits option.splits)
next
  case False
  then show ?thesis
    by (auto simp: request_def request_resume_def Let_def sendable_def authorized_def
             split: prod.splits sum.splits option.splits dest: encodeBody_thrown)
qed

lemma request_timestamps:
  "timestamps (request now env opts tss)
     = (if dispatched (request now env opts tss) \<noteq> None
        then trackRequest (finishedAt (request now env opts tss)) (snd (waitForRateLimit now tss))
        else snd (waitForRateLimit now tss))"
  by (auto simp: request_def request_resume_def resume_clock_def Let_def
           split: prod.splits sum.splits option.splits)

lemma request_timestamps_sendable:
  assumes "sendable opts"
  shows "timestamps (request now env opts tss)
           = trackRequest (finishedAt (request now env opts tss)) (snd (waitForRateLimit now tss))"
proof -
  from assms have "dispatched (request now env opts tss) \<noteq> None"
    using request_dispatched_iff[of now env opts tss] by blast
  then show ?thesis using request_timestamps[of now env opts tss] by metis
qed

lemma filter_window_mono:
  assumes "c \<le> now"
  shows "filter (\<lambda>d. now - d < RATE_WINDOW_MS) (filter (\<lambda>d. c - d < RATE_WINDOW_MS) hist)
           = filter (\<lambda>d. now - d < RATE_WINDOW_MS) hist"
  using assms by (induction hist) auto

lemma length_filter_imp:
  "(\<And>x. x \<in> set xs \<Longrightarrow> P x \<Longrightarrow> Q x) \<Longrightarrow> length (filter P xs) \<le> length (filter Q xs)"
  by (induction xs) auto

lemma request_keeps_inv:
  assumes inv: "gateway_inv clock tss hist"
  shows "gateway_inv (finishedAt (request (clock + int idle) env opts tss))
           (timestamps (request (clock + int idle) env opts tss))
           (hist @ (if dispatched (request (clock + int idle) env opts tss) \<noteq> None
                    then [finishedAt (request (clock + int idle) env opts tss)] else []))"
proof -
  let ?now = "clock + int idle"
  let ?out = "request ?now env opts tss"
  let ?kept = "filter (\<lambda>ts. ?now - ts < RATE_WINDOW_MS) tss"
  let ?r = "finishedAt ?out"
  from inv have pos: "0 < clock" and hist: "\<forall>d\<in>set hist. 0 < d \<and> d \<le> clock"
    and len: "length tss \<le> 250" and slice: "\<forall>T. length (filter (within_slice T) hist) \<le> 250"
    by (auto simp: gateway_inv_def)
  from inv obtain c where c: "c \<le> clock" and tss: "tss = filter (\<lambda>d. c - d < RATE_WINDOW_MS) hist"
    by (auto simp: gateway_inv_def)
  have kept: "?kept = filter (\<lambda>d. ?now - d < RATE_WINDOW_MS) hist"
    unfolding tss using c by (intro filter_window_mono) simp
  have sub: "set tss \<subseteq> set hist" unfolding tss by auto
  then have nz: "0 \<notin> set tss" using hist by auto
  have "length ?kept \<le> length tss" by (rule length_filter_le)
  then have lenk: "length ?kept \<le> 250" using len by linarith
  have delay_nonneg: "0 \<le> (case fst (waitForRateLimit ?now tss) of None \<Rightarrow> 0 | Some d \<Rightarrow> d)"
  proof (cases "length ?kept < 250")
    case True
    then show ?thesis by (simp add: waitForRateLimit_none)
  next
    case False
    then have "250 \<le> length ?kept" by simp
    from waitForRateLimit_some[OF this nz] show ?thesis by auto
  qed
  have r_ge: "?now \<le> ?r" unfolding request_finishedAt using delay_nonneg by simp
  have r_pos: "0 < ?r" using r_ge pos by simp
  have drop: "length (filter (\<lambda>d. ?r - d < RATE_WINDOW_MS) ?kept) \<le> 249"
  proof (cases "length ?kept < 250")
    case True
    moreover have "length (filter (\<lambda>d. ?r - d < RATE_WINDOW_MS) ?kept) \<le> length ?kept"
      by (rule length_filter_le)
    ultimately show ?thesis by linarith
  next
    case False
    then have "250 \<le> length ?kept" by simp
    from waitForRateLimit_some[OF this nz] obtain oldest later where
      k: "?kept = oldest # later"
      and d: "fst (waitForRateLimit ?now tss) = Some (RATE_WINDOW_MS - (?now - oldest) + 100)"
      by blast
    have "?r = ?now + (RATE_WINDOW_MS - (?now - oldest) + 100) + int (lateness env)"
      unfolding request_finishedAt d by simp
    then have out_of_window: "\<not> (?r - oldest < RATE_WINDOW_MS)" by simp
    have "length later \<le> 249" using lenk k by simp
    moreover have "length (filter (\<lambda>d. ?r - d < RATE_WINDOW_MS) later) \<le> length later"
      by (rule length_filter_le)
    ultimately have "length (filter (\<lambda>d. ?r - d < RATE_WINDOW_MS) later) \<le> 249"
      by linarith
    then show ?thesis unfolding k using out_of_window by simp
  qed
  have kept_r: "filter (\<lambda>d. ?r - d < RATE_WINDOW_MS) ?kept = filter (\<lambda>d. ?r - d < RATE_WINDOW_MS) hist"
    unfolding kept using r_ge by (intro filter_window_mono)
  show ?thesis
  proof (cases "sendable opts")
    case False
    then have nd: "dispatched ?out = None"
      using request_dispatched_iff[of ?now env opts tss] by blast
    have ts: "timestamps ?out = ?kept"
      unfolding request_timestamps[of ?now env opts tss] nd
      by (simp add: waitForRateLimit_kept)
    have "gateway_inv ?r ?kept hist"
      unfolding gateway_inv_def
    proof (intro conjI)
      show "0 < ?r" by (rule r_pos)
      show "\<forall>d\<in>set hist. 0 < d \<and> d \<le> ?r" using hist r_ge by fastforce
      show "\<exists>c. c \<le> ?r \<and> ?kept = filter (\<lambda>d. c - d < RATE_WINDOW_MS) hist"
        using kept r_ge by blast
      show "length ?kept \<le> 250" by (rule lenk)
      show "\<forall>T. length (filter (within_slice T) hist) \<le> 250" by (rule slice)
    qed
    then show ?thesis unfolding ts by (simp add: nd)
  next
    case True
    then have d: "dispatched ?out \<noteq> None"
      using request_dispatched_iff[of ?now env opts tss] by blast
    have "timestamps ?out = trackRequest ?r (snd (waitForRateLimit ?now tss))"
      using d request_timestamps[of ?now env opts tss] by metis
    then have ts: "timestamps ?out = filter (\<lambda>d. ?r - d < RATE_WINDOW_MS) hist @ [?r]"
      using kept_r by (simp add: waitForRateLimit_kept trackRequest_def)
    have win: "filter (\<lambda>d. ?r - d < RATE_WINDOW_MS) (hist @ [?r])
                 = filter (\<lambda>d. ?r - d < RATE_WINDOW_MS) hist @ [?r]"
      by (simp add: RATE_WINDOW_MS_def)
    have lent: "length (filter (\<lambda>d. ?r - d < RATE_WINDOW_MS) hist) \<le> 249"
      using drop kept_r by simp
    have "gateway_inv ?r (filter (\<lambda>d. ?r - d < RATE_WINDOW_MS) hist @ [?r]) (hist @ [?r])"
      unfolding gateway_inv_def
    proof (intro conjI)
      show "0 < ?r" by (rule r_pos)
      show "\<forall>d\<in>set (hist @ [?r]). 0 < d \<and> d \<le> ?r" using hist r_ge r_pos by fastforce
      show "\<exists>c. c \<le> ?r \<and> filter (\<lambda>d. ?r - d < RATE_WINDOW_MS) hist @ [?r]
                     = filter (\<lambda>d. c - d < RATE_WINDOW_MS) (hist @ [?r])"
        using win by (intro exI[of _ ?r]) simp
      show "length (filter (\<lambda>d. ?r - d < RATE_WINDOW_MS) hist @ [?r]) \<le> 250"
        using lent by simp
      show "\<forall>T. length (filter (within_slice T) (hist @ [?r])) \<le> 250"
      proof
        fix T
        show "length (filter (within_slice T) (hist @ [?r])) \<le> 250"
        proof (cases "within_slice T ?r")
          case False
          then show ?thesis using slice by simp
        next
          case True
          have "length (filter (within_slice T) hist)
                  \<le> length (filter (\<lambda>d. ?r - d < RATE_WINDOW_MS) hist)"
            using True by (intro length_filter_imp) (auto simp: within_slice_def)
          then show ?thesis using lent True by simp
        qed
      qed
    qed
    then show ?thesis unfolding ts using d by simp
  qed
qed

lemma run_requests_inv:
  assumes "gateway_inv clock tss hist"
  shows "(\<forall>T. length (filter (within_slice T) (hist @ dispatch_times (run_requests clock tss calls))) \<le> 250)
       \<and> (\<forall>out\<in>set (run_requests clock tss calls). length (timestamps out) \<le> 250)"
  using assms
proof (induction calls arbitrary: clock tss hist)
  case Nil
  then show ?case by (simp add: dispatch_times_def gateway_inv_def)
next
  case (Cons c cs)
  let ?out = "request (clock + int (idleBefore c)) (call_env c) (call_options c) tss"
  let ?hist = "hist @ (if dispatched ?out \<noteq> None then [finishedAt ?out] else [])"
  have inv': "gateway_inv (finishedAt ?out) (timestamps ?out) ?hist"
    by (rule request_keeps_inv[OF Cons.prems])
  from Cons.IH[OF inv']
  have ih1: "\<forall>T. length (filter (within_slice T)
                (?hist @ dispatch_times (run_requests (finishedAt ?out) (timestamps ?out) cs))) \<le> 250"
    and ih2: "\<forall>out\<in>set (run_requests (finishedAt ?out) (timestamps ?out) cs). length (timestamps out) \<le> 250"
    by auto
  have here: "length (timestamps ?out) \<le> 250" using inv' by (simp add: gateway_inv_def)
  have dt: "hist @ dispatch_times (run_requests clock tss (c # cs))
              = ?hist @ dispatch_times (run_requests (finishedAt ?out) (timestamps ?out) cs)"
    by (simp add: dispatch_times_def Let_def)
  show ?case
    unfolding dt using ih1 ih2 here by (simp add: Let_def)
qed

lemma gateway_inv_initial: "0 < clock \<Longrightarrow> gateway_inv clock [] []"
  by (auto simp: gateway_inv_def)

lemma request_suspension_bound:
  assumes inv: "gateway_inv clock tss hist"
  shows "case suspendedFor (request (clock + int idle) env opts tss) of
           None \<Rightarrow> True
         | Some d \<Rightarrow> 100 < d \<and> d \<le> RATE_WINDOW_MS + 100"
proof -
  let ?now = "clock + int idle"
  let ?kept = "filter (\<lambda>ts. ?now - ts < RATE_WINDOW_MS) tss"
  from inv have hist: "\<forall>d\<in>set hist. 0 < d \<and> d \<le> clock" by (simp add: gateway_inv_def)
  from inv have sub: "set tss \<subseteq> set hist" by (auto simp: gateway_inv_def)
  then have nz: "0 \<notin> set tss" using hist by auto
  show ?thesis
  proof (cases "length ?kept < 250")
    case True
    then show ?thesis by (simp add: request_suspendedFor waitForRateLimit_none)
  next
    case False
    then have "250 \<le> length ?kept" by simp
    from waitForRateLimit_some[OF this nz] obtain oldest later where
      k: "?kept = oldest # later"
      and d: "fst (waitForRateLimit ?now tss) = Some (RATE_WINDOW_MS - (?now - oldest) + 100)"
      and p: "0 < RATE_WINDOW_MS - (?now - oldest)"
      by blast
    from k have "oldest \<in> set ?kept" by simp
    then have "oldest \<in> set hist" using sub by auto
    then have "oldest \<le> ?now" using hist by fastforce
    then show ?thesis using p by (simp add: request_suspendedFor d)
  qed
qed

lemma run_requests_suspensions:
  assumes "gateway_inv clock tss hist"
  shows "\<forall>out\<in>set (run_requests clock tss calls).
           (case suspendedFor out of None \<Rightarrow> True | Some d \<Rightarrow> 100 < d \<and> d \<le> RATE_WINDOW_MS + 100)"
  using assms
proof (induction calls arbitrary: clock tss hist)
  case Nil
  then show ?case by simp
next
  case (Cons c cs)
  let ?out = "request (clock + int (idleBefore c)) (call_env c) (call_options c) tss"
  have here: "case suspendedFor ?out of None \<Rightarrow> True | Some d \<Rightarrow> 100 < d \<and> d \<le> RATE_WINDOW_MS + 100"
    by (rule request_suspension_bound[OF Cons.prems])
  have rest: "\<forall>out\<in>set (run_requests (finishedAt ?out) (timestamps ?out) cs).
           (case suspendedFor out of None \<Rightarrow> True | Some d \<Rightarrow> 100 < d \<and> d \<le> RATE_WINDOW_MS + 100)"
    by (rule Cons.IH[OF request_keeps_inv[OF Cons.prems]])
  show ?case using here rest by (simp add: Let_def)
qed

lemma run_requests_dispatched:
  "map (\<lambda>out. dispatched out \<noteq> None) (run_requests clock tss calls)
     = map (\<lambda>c. sendable (call_options c)) calls"
  by (induction calls arbitrary: clock tss) (simp_all add: Let_def request_dispatched_iff[simplified])

lemma length_filter_window:
  "length xs \<le> 250 \<Longrightarrow> length (filter P xs) \<le> 250"
  using length_filter_le[of P xs] by linarith

text \<open>
  Calls made one after the other, each awaited before the next is made, from the initial
  state and at positive clock readings: any 60-second slice of time holds at most 250
  dispatches, and the array never holds more than 250 timestamps. The calls handed to
  \<open>fetch\<close> are those with a token (or \<open>skipAuth\<close>) and a body that is not null. A call is
  suspended exactly when its check finds 250 timestamps in the window, until the oldest of
  them has left the window, plus 100 ms.
\<close>

lemma sequential_requests_within_budget:
  assumes "0 < clock"
  shows "(\<forall>T. length (filter (within_slice T) (dispatch_times (run_requests clock [] calls))) \<le> 250)
       \<and> (\<forall>out\<in>set (run_requests clock [] calls).
             \<forall>T. length (filter (\<lambda>ts. T - ts < RATE_WINDOW_MS) (timestamps out)) \<le> 250)
       \<and> map (\<lambda>out. dispatched out \<noteq> None) (run_requests clock [] calls)
           = map (\<lambda>c. sendable (call_options c)) calls
       \<and> (\<forall>out\<in>set (run_requests clock [] calls).
             (case suspendedFor out of None \<Rightarrow> True | Some d \<Rightarrow> 100 < d \<and> d \<le> RATE_WINDOW_MS + 100))
       \<and> (length (filter (\<lambda>ts. now - ts < RATE_WINDOW_MS) tss) < 250 \<longrightarrow>
             suspendedFor (request now env opts tss) = None)
       \<and> (250 \<le> length (filter (\<lambda>ts. now - ts < RATE_WINDOW_MS) tss) \<and> 0 \<notin> set tss \<longrightarrow>
             (\<exists>oldest later. filter (\<lambda>ts. now - ts < RATE_WINDOW_MS) tss = oldest # later
                \<and> suspendedFor (request now env opts tss) = Some (RATE_WINDOW_MS - (now - oldest) + 100)
                \<and> oldest + RATE_WINDOW_MS + 100 \<le> finishedAt (request now env opts tss)))"
proof -
  have inv: "gateway_inv clock [] []" by (rule gateway_inv_initial[OF assms])
  from run_requests_inv[OF inv, of calls]
  have a: "\<forall>T. length (filter (within_slice T) (dispatch_times (run_requests clock [] calls))) \<le> 250"
    and b0: "\<forall>out\<in>set (run_requests clock [] calls). length (timestamps out) \<le> 250"
    by simp_all
  from b0 have b: "\<forall>out\<in>set (run_requests clock [] calls).
             \<forall>T. length (filter (\<lambda>ts. T - ts < RATE_WINDOW_MS) (timestamps out)) \<le> 250"
    using length_filter_window by blast
  have c: "map (\<lambda>out. dispatched out \<noteq> None) (run_requests clock [] calls)
           = map (\<lambda>c. sendable (call_options c)) calls"
    by (rule run_requests_dispatched)
  have d: "\<forall>out\<in>set (run_requests clock [] calls).
             (case suspendedFor out of None \<Rightarrow> True | Some d \<Rightarrow> 100 < d \<and> d \<le> RATE_WINDOW_MS + 100)"
    by (rule run_requests_suspensions[OF inv])
  have e: "length (filter (\<lambda>ts. now - ts < RATE_WINDOW_MS) tss) < 250 \<longrightarrow>
             suspendedFor (request now env opts tss) = None"
    by (simp add: request_suspendedFor waitForRateLimit_none)
  have f: "250 \<le> length (filter (\<lambda>ts. now - ts < RATE_WINDOW_MS) tss) \<and> 0 \<notin> set tss \<longrightarrow>
             (\<exists>oldest later. filter (\<lambda>ts. now - ts < RATE_WINDOW_MS) tss = oldest # later
                \<and> suspendedFor (request now env opts tss) = Some (RATE_WINDOW_MS - (now - oldest) + 100)
                \<and> oldest + RATE_WINDOW_MS + 100 \<le> finishedAt (request now env opts tss))"
  proof
    assume h: "250 \<le> length (filter (\<lambda>ts. now - ts < RATE_WINDOW_MS) tss) \<and> 0 \<notin> set tss"
    then obtain oldest later where
      k: "filter (\<lambda>ts. now - ts < RATE_WINDOW_MS) tss = oldest # later"
      and w: "fst (waitForRateLimit now tss) = Some (RATE_WINDOW_MS - (now - oldest) + 100)"
      using waitForRateLimit_some[of now tss] by blast
    have "oldest + RATE_WINDOW_MS + 100 \<le> finishedAt (request now env opts tss)"
      unfolding request_finishedAt w by simp
    with k w show "\<exists>oldest later. filter (\<lambda>ts. now - ts < RATE_WINDOW_MS) tss = oldest # later
                \<and> suspendedFor (request now env opts tss) = Some (RATE_WINDOW_MS - (now - oldest) + 100)
                \<and> oldest + RATE_WINDOW_MS + 100 \<le> finishedAt (request now env opts tss)"
      by (simp add: request_suspendedFor)
  qed
  from a b c d e f show ?thesis by blast
qed

text \<open>A burst: calls made back to back at one clock reading.\<close>

lemma ex_call_fields:
  "idleBefore ex_call = 0" "lateness (call_env ex_call) = 0" "sendable (call_options ex_call)"
  by (simp_all add: ex_call_def ex_request_env_def ex_sendable)

lemma burst_under_budget:
  assumes "n < 250" and "t \<noteq> 0"
  shows "suspendedFor (request t (call_env ex_call) (call_options ex_call) (replicate n t)) = None
       \<and> finishedAt (request t (call_env ex_call) (call_options ex_call) (replicate n t)) = t
       \<and> timestamps (request t (call_env ex_call) (call_options ex_call) (replicate n t))
           = replicate (Suc n) t"
proof -
  have k: "filter (\<lambda>ts. t - ts < RATE_WINDOW_MS) (replicate n t) = replicate n t"
    by (simp add: RATE_WINDOW_MS_def)
  have w: "fst (waitForRateLimit t (replicate n t)) = None"
    using assms(1) by (intro waitForRateLimit_none) (simp add: k)
  have f: "finishedAt (request t (call_env ex_call) (call_options ex_call) (replicate n t)) = t"
    by (simp add: request_finishedAt w ex_call_fields)
  have "timestamps (request t (call_env ex_call) (call_options ex_call) (replicate n t))
          = trackRequest t (replicate n t)"
    by (simp add: request_timestamps_sendable ex_call_fields f waitForRateLimit_kept k)
  also have "\<dots> = replicate (Suc n) t"
    by (simp add: trackRequest_def k replicate_append_same)
  finally show ?thesis using w f by (simp add: request_suspendedFor)
qed

lemma burst_run:
  assumes "n + k \<le> 250" and "t \<noteq> 0"
  shows "map suspendedFor (run_requests t (replicate n t) (replicate k ex_call @ cs))
           = replicate k None @ map suspendedFor (run_requests t (replicate (n + k) t) cs)"
  using assms
proof (induction k arbitrary: n)
  case 0
  then show ?case by simp
next
  case (Suc k)
  then have n: "n < 250" and nk: "Suc n + k \<le> 250" by simp_all
  from burst_under_budget[OF n Suc.prems(2)] Suc.IH[OF nk Suc.prems(2)]
  show ?case by (simp add: Let_def ex_call_fields)
qed

lemma burst_at_budget:
  assumes "0 < t"
  shows "suspendedFor (request t (call_env ex_call) (call_options ex_call) (replicate 250 t)) = Some 60100
       \<and> finishedAt (request t (call_env ex_call) (call_options ex_call) (replicate 250 t)) = t + 60100
       \<and> timestamps (request t (call_env ex_call) (call_options ex_call) (replicate 250 t)) = [t + 60100]"
proof -
  have k: "filter (\<lambda>ts. t - ts < RATE_WINDOW_MS) (replicate 250 t) = replicate 250 t"
    by (simp add: RATE_WINDOW_MS_def)
  have r: "replicate 250 t = t # replicate 249 t"
    by (simp add: replicate_Suc[symmetric] del: replicate_Suc replicate.simps)
  have w: "fst (waitForRateLimit t (replicate 250 t)) = Some 60100"
    using assms
    by (simp add: waitForRateLimit_def getRateLimitStatus_def Let_def k RATE_LIMIT_def)
       (simp add: r RATE_WINDOW_MS_def)
  have f: "finishedAt (request t (call_env ex_call) (call_options ex_call) (replicate 250 t)) = t + 60100"
    by (simp add: request_finishedAt w ex_call_fields)
  have "timestamps (request t (call_env ex_call) (call_options ex_call) (replicate 250 t))
          = trackRequest (t + 60100) (replicate 250 t)"
    by (simp add: request_timestamps_sendable ex_call_fields f waitForRateLimit_kept k)
  also have "\<dots> = [t + 60100]"
    by (simp add: trackRequest_def RATE_WINDOW_MS_def)
  finally show ?thesis using w f by (simp add: request_suspendedFor)
qed

lemma replicate_252: "replicate 252 x = replicate 250 x @ [x, x]"
proof -
  have "replicate (250 + 2) x = replicate 250 x @ replicate 2 x" by (rule replicate_add)
  then show ?thesis by (simp add: numeral_2_eq_2)
qed

text \<open>
  In a burst of 252 calls made one after the other at clock 1000, only the 251st is
  suspended, for 60100 ms: the first 250 find budget left, and the 252nd finds the window
  emptied by the wait.
\<close>

lemma sequential_burst_suspensions:
  "map suspendedFor (run_requests 1000 [] (replicate 252 ex_call))
     = replicate 250 None @ [Some 60100, None]"
proof -
  have a: "map suspendedFor (run_requests 1000 (replicate 0 1000) (replicate 250 ex_call @ [ex_call, ex_call]))
             = replicate 250 None
               @ map suspendedFor (run_requests 1000 (replicate (0 + 250) 1000) [ex_call, ex_call])"
    by (rule burst_run) simp_all
  have b: "suspendedFor (request 61100 (call_env ex_call) (call_options ex_call) [61100]) = None"
    by (simp add: request_suspendedFor waitForRateLimit_none)
  have "map suspendedFor (run_requests 1000 (replicate 250 1000) [ex_call, ex_call]) = [Some 60100, None]"
    using burst_at_budget[of 1000] b by (simp add: Let_def ex_call_fields)
  with a show ?thesis by (simp add: replicate_252)
qed

lemma sequential_burst_within_budget:
  "length (filter (within_slice 61100) (dispatch_times (run_requests 1000 [] (replicate 252 ex_call)))) \<le> 250
   \<and> map (\<lambda>out. dispatched out \<noteq> None) (run_requests 1000 [] (replicate 252 ex_call))
       = replicate 252 True
   \<and> suspendedFor (request 1000 (call_env ex_call) (call_options ex_call) []) = None"
proof -
  note t = sequential_requests_within_budget[of 1000 "replicate 252 ex_call" 1000 "[]"
             "call_env ex_call" "call_options ex_call"]
  have p: "(0::int) < 1000" by simp
  have m: "map (\<lambda>c. sendable (call_options c)) (replicate 252 ex_call) = replicate 252 True"
    by (simp add: ex_call_fields)
  have e: "length (filter (\<lambda>ts. 1000 - ts < RATE_WINDOW_MS) []) < 250" by simp
  from t[OF p] have a: "length (filter (within_slice 61100)
        (dispatch_times (run_requests 1000 [] (replicate 252 ex_call)))) \<le> 250"
    by blast
  from t[OF p] m have b: "map (\<lambda>out. dispatched out \<noteq> None) (run_requests 1000 [] (replicate 252 ex_call))
       = replicate 252 True"
    by simp
  from t[OF p] e have c: "suspendedFor (request 1000 (call_env ex_call) (call_options ex_call) []) = None"
    by blast
  from a b c show ?thesis by simp
qed

text \<open>
  Calls that overlap. The check in \<open>waitForRateLimit\<close> and the recording in \<open>trackRequest\<close>
  are divided by an \<open>await\<close>, and nothing is checked again when the call goes on. Calls
  started in one turn on an array with budget left therefore all pass the check, however
  many they are: two calls started at 249 timestamps leave 251 in the window.
\<close>

lemma start_requests_replicate:
  assumes "k < 250"
  shows "start_requests t (replicate k t) (replicate n c) = (replicate n (None, c), replicate k t)"
proof (induction n)
  case 0
  then show ?case by simp
next
  case (Suc n)
  have f: "filter (\<lambda>ts. t - ts < RATE_WINDOW_MS) (replicate k t) = replicate k t"
    by (simp add: RATE_WINDOW_MS_def)
  have "fst (waitForRateLimit t (replicate k t)) = None"
    using assms by (intro waitForRateLimit_none) (simp add: f)
  moreover have "snd (waitForRateLimit t (replicate k t)) = replicate k t"
    by (simp add: waitForRateLimit_kept f)
  ultimately have "waitForRateLimit t (replicate k t) = (None, replicate k t)"
    by (simp add: prod_eq_iff)
  with Suc show ?case by simp
qed

lemma request_resume_ex_call:
  "suspendedFor (request_resume t delay (call_env ex_call) (call_options ex_call) tss) = delay"
  "dispatched (request_resume t delay (call_env ex_call) (call_options ex_call) tss) \<noteq> None"
  "finishedAt (request_resume t delay (call_env ex_call) (call_options ex_call) tss) = t"
  "timestamps (request_resume t delay (call_env ex_call) (call_options ex_call) tss)
     = trackRequest t tss"
  by (simp_all add: request_resume_def ex_call_def ex_options_def encodeBody_def Let_def)

lemma trackRequest_replicate: "trackRequest t (replicate k t) = t # replicate k t"
  by (simp add: trackRequest_def RATE_WINDOW_MS_def replicate_append_same)

lemma resume_requests_suspendedFor:
  "map suspendedFor (resume_requests t t (replicate k t) (replicate n (None, ex_call)))
     = replicate n None"
proof (induction n arbitrary: k)
  case 0
  then show ?case by simp
next
  case (Suc n)
  from Suc[of "Suc k"] show ?case
    by (simp add: Let_def request_resume_ex_call ex_call_fields trackRequest_replicate)
qed

lemma resume_requests_finishedAt:
  "map finishedAt (resume_requests t t (replicate k t) (replicate n (None, ex_call)))
     = replicate n t"
proof (induction n arbitrary: k)
  case 0
  then show ?case by simp
next
  case (Suc n)
  from Suc[of "Suc k"] show ?case
    by (simp add: Let_def request_resume_ex_call ex_call_fields trackRequest_replicate)
qed

lemma resume_requests_dispatched:
  "filter (\<lambda>out. dispatched out \<noteq> None)
     (resume_requests t t (replicate k t) (replicate n (None, ex_call)))
     = resume_requests t t (replicate k t) (replicate n (None, ex_call))"
proof (induction n arbitrary: k)
  case 0
  then show ?case by simp
next
  case (Suc n)
  from Suc[of "Suc k"] show ?case
    by (simp add: Let_def request_resume_ex_call(1,3,4) request_resume_ex_call(2)[simplified]
          ex_call_fields trackRequest_replicate)
qed

lemma resume_requests_last:
  "timestamps (last (resume_requests t t (replicate k t) (replicate (Suc n) (None, ex_call))))
     = replicate (Suc (k + n)) t"
proof (induction n arbitrary: k)
  case 0
  then show ?case
    by (simp add: Let_def request_resume_ex_call ex_call_fields trackRequest_replicate)
next
  case (Suc n)
  from Suc[of "Suc k"] show ?case
    by (simp add: Let_def request_resume_ex_call ex_call_fields trackRequest_replicate)
qed

lemma overlapping_two_requests_at_249:
  "map suspendedFor (overlapping_requests 1000 (replicate 249 1000) [ex_call, ex_call])
     = [None, None]
   \<and> timestamps (last (overlapping_requests 1000 (replicate 249 1000) [ex_call, ex_call]))
     = replicate 251 1000"
proof -
  let ?outs = "overlapping_requests 1000 (replicate 249 1000) [ex_call, ex_call]"
  have two: "[ex_call, ex_call] = replicate 2 ex_call" by (simp add: numeral_2_eq_2)
  have s: "start_requests 1000 (replicate 249 1000) (replicate 2 ex_call)
             = (replicate 2 (None, ex_call), replicate 249 1000)"
    by (rule start_requests_replicate) simp
  have o2: "?outs = resume_requests 1000 1000 (replicate 249 1000) (replicate 2 (None, ex_call))"
    unfolding two overlapping_requests_def s prod.case ..
  have o: "?outs = resume_requests 1000 1000 (replicate 249 1000) (replicate (Suc 1) (None, ex_call))"
  proof -
    have "(2::nat) = Suc 1" by simp
    then show ?thesis unfolding o2 by (rule arg_cong)
  qed
  have a: "map suspendedFor ?outs = [None, None]"
    unfolding o using resume_requests_suspendedFor[of 1000 249 "Suc 1"] by simp
  have "timestamps (last ?outs) = replicate (Suc (249 + 1)) 1000"
    unfolding o by (rule resume_requests_last)
  then have "timestamps (last ?outs) = replicate 251 1000" by simp
  with a show ?thesis by blast
qed

text \<open>
  Claim C2 does not hold of the code: the budget of 250 is exceeded when calls overlap.
  Take 251 calls of \<open>request\<close> started in one turn at clock 1000 on the empty array. Every
  check runs before any call is recorded, so no call is suspended; all 251 are handed to
  \<open>fetch\<close> at clock 1000, within one 60-second slice, and the array ends with 251
  timestamps of one trailing window.
\<close>

theorem overlapping_requests_exceed_budget:
  "map suspendedFor (overlapping_requests 1000 [] (replicate 251 ex_call)) = replicate 251 None
   \<and> dispatch_times (overlapping_requests 1000 [] (replicate 251 ex_call)) = replicate 251 1000
   \<and> length (filter (within_slice 1000)
         (dispatch_times (overlapping_requests 1000 [] (replicate 251 ex_call)))) = 251
   \<and> timestamps (last (overlapping_requests 1000 [] (replicate 251 ex_call))) = replicate 251 1000
   \<and> length (filter (\<lambda>ts. 1000 - ts < RATE_WINDOW_MS)
         (timestamps (last (overlapping_requests 1000 [] (replicate 251 ex_call))))) = 251"
proof -
  let ?outs = "overlapping_requests 1000 [] (replicate 251 ex_call)"
  have s: "start_requests 1000 [] (replicate 251 ex_call) = (replicate 251 (None, ex_call), [])"
    using start_requests_replicate[of 0 1000 251 ex_call] by simp
  have o: "?outs = resume_requests 1000 1000 (replicate 0 1000) (replicate 251 (None, ex_call))"
    by (simp add: overlapping_requests_def s)
  have o': "?outs = resume_requests 1000 1000 (replicate 0 1000) (replicate (Suc 250) (None, ex_call))"
  proof -
    have "(251::nat) = Suc 250" by simp
    then show ?thesis unfolding o by (rule arg_cong)
  qed
  have a: "map suspendedFor ?outs = replicate 251 None"
    unfolding o by (rule resume_requests_suspendedFor)
  have all: "filter (\<lambda>out. dispatched out \<noteq> None) ?outs = ?outs"
    unfolding o by (rule resume_requests_dispatched)
  have f: "map finishedAt ?outs = replicate 251 1000"
    unfolding o by (rule resume_requests_finishedAt)
  have b: "dispatch_times ?outs = replicate 251 1000"
    unfolding dispatch_times_def all by (rule f)
  have c: "length (filter (within_slice 1000) (dispatch_times ?outs)) = 251"
    unfolding b by (simp add: within_slice_def RATE_WINDOW_MS_def)
  have "timestamps (last ?outs) = replicate (Suc (0 + 250)) 1000"
    unfolding o' by (rule resume_requests_last)
  then have e: "timestamps (last ?outs) = replicate 251 1000" by simp
  have g: "length (filter (\<lambda>ts. 1000 - ts < RATE_WINDOW_MS) (timestamps (last ?outs))) = 251"
    unfolding e by (simp add: RATE_WINDOW_MS_def)
  from a b c e g show ?thesis by blast
qed

section \<open>The message listener and the registered handlers\<close>

lemma getValidToken_rejection:
  "fst (getValidToken env st) = Inl err \<Longrightarrow>
     err = Error ''Not authenticated'' \<or> err = Error ''Session expired. Please log in again.''"
  by (auto simp: getValidToken_def Let_def split: option.splits if_splits sum.splits)

lemma getValidToken_rejection_message: "fst (getValidToken env st) = Inl err \<Longrightarrow> message err \<noteq> []"
  by (drule getValidToken_rejection) auto

lemma authorizedCall_rejection:
  "fst (authorizedCall keep call env w) = Inl err \<Longrightarrow> message err \<noteq> []"
  using getValidToken_rejection_message[of env "storage (bg w)" err]
  by (auto simp: authorizedCall_def split: prod.splits sum.splits)

lemma fst_thenStartPolling: "fst (thenStartPolling env res) = fst res"
  by (auto simp: thenStartPolling_def split: prod.splits sum.splits)

lemma handleGetActiveTorrentCount_rejection:
  "fst (handleGetActiveTorrentCount sender env w) = Inl err \<Longrightarrow> message err \<noteq> []"
  using getValidToken_rejection_message[of env "storage (bg w)" err]
  by (auto simp: handleGetActiveTorrentCount_def split: prod.splits sum.splits)

lemma handleGetUserProfile_rejection:
  assumes "fst (handleGetUserProfile sender env w) = Inl err"
      and "\<forall>tk e. getUser env tk = Inl e \<longrightarrow> message e \<noteq> []"
  shows "message err \<noteq> []"
  using assms getValidToken_rejection_message[of env "storage (bg w)" err]
  by (auto simp: handleGetUserProfile_def split: option.splits prod.splits sum.splits)

lemma never_rejecting_handlers:
  "fst (handleAuthStatus sender env w) \<noteq> Inl err"
  "fst (handleLogin t sender env w) \<noteq> Inl err"
  "fst (handleLogout sender env w) \<noteq> Inl err"
  "fst (handleGetHostsRegex sender env w) \<noteq> Inl err"
  "fst (handleGetHostsDomains sender env w) \<noteq> Inl err"
  "fst (handleShowNotification title msg sender env w) \<noteq> Inl err"
  "fst (handleReportDetectedLinks links sender env w) \<noteq> Inl err"
  "fst (handleGetDetectedLinks sender env w) \<noteq> Inl err"
proof -
  show "fst (handleAuthStatus sender env w) \<noteq> Inl err"
    by (simp add: handleAuthStatus_def split: prod.splits sum.splits)
  show "fst (handleLogin t sender env w) \<noteq> Inl err"
    by (simp add: handleLogin_def split: sum.splits)
  show "fst (handleLogout sender env w) \<noteq> Inl err"
    by (simp add: handleLogout_def)
  show "fst (handleGetHostsRegex sender env w) \<noteq> Inl err"
    by (simp add: handleGetHostsRegex_def split: option.splits sum.splits)
  show "fst (handleGetHostsDomains sender env w) \<noteq> Inl err"
    by (simp add: handleGetHostsDomains_def split: option.splits sum.splits)
  show "fst (handleShowNotification title msg sender env w) \<noteq> Inl err"
    by (simp add: handleShowNotification_def)
  show "fst (handleReportDetectedLinks links sender env w) \<noteq> Inl err"
    by (simp add: handleReportDetectedLinks_def split: option.splits)
  show "fst (handleGetDetectedLinks sender env w) \<noteq> Inl err"
    by (simp add: handleGetDetectedLinks_def split: option.splits sum.splits)
qed

lemma authorized_handlers_rejection:
  "fst (handleUnrestrictLink link password remote sender env w) = Inl err \<Longrightarrow> message err \<noteq> []"
  "fst (handleUnrestrictFolder link sender env w) = Inl err \<Longrightarrow> message err \<noteq> []"
  "fst (handleListTorrents offset limit sender env w) = Inl err \<Longrightarrow> message err \<noteq> []"
  "fst (handleGetTorrentInfo i sender env w) = Inl err \<Longrightarrow> message err \<noteq> []"
  "fst (handleAddMagnet m sender env w) = Inl err \<Longrightarrow> message err \<noteq> []"
  "fst (handleAddTorrent f sender env w) = Inl err \<Longrightarrow> message err \<noteq> []"
  "fst (handleSelectFiles i files sender env w) = Inl err \<Longrightarrow> message err \<noteq> []"
  "fst (handleDeleteTorrent i sender env w) = Inl err \<Longrightarrow> message err \<noteq> []"
  "fst (handleListDownloads offset limit sender env w) = Inl err \<Longrightarrow> message err \<noteq> []"
  "fst (handleDeleteDownload i sender env w) = Inl err \<Longrightarrow> message err \<noteq> []"
  unfolding handleUnrestrictLink_def handleUnrestrictFolder_def handleListTorrents_def
    handleGetTorrentInfo_def handleAddMagnet_def handleAddTorrent_def handleSelectFiles_def
    handleDeleteTorrent_def handleListDownloads_def handleDeleteDownload_def fst_thenStartPolling
  by (rule authorizedCall_rejection, assumption)+

lemma registered_rejection_message:
  assumes reg: "backgroundHandlers msg = Some h"
      and rej: "fst (h sender env w) = Inl err"
      and remote: "\<forall>tk e. getUser env tk = Inl e \<longrightarrow> message e \<noteq> []"
  shows "message err \<noteq> []"
proof (cases msg)
  case AUTH_STATUS
  with reg rej show ?thesis by (auto simp: never_rejecting_handlers)
next
  case (AUTH_LOGIN t)
  with reg rej show ?thesis by (auto simp: never_rejecting_handlers)
next
  case AUTH_LOGOUT
  with reg rej show ?thesis by (auto simp: never_rejecting_handlers)
next
  case GET_USER_PROFILE
  with reg rej show ?thesis using handleGetUserProfile_rejection[OF _ remote] by auto
next
  case (UNRESTRICT_LINK link password remote)
  with reg rej show ?thesis by (auto dest: authorized_handlers_rejection)
next
  case (UNRESTRICT_FOLDER link)
  with reg rej show ?thesis by (auto dest: authorized_handlers_rejection)
next
  case (LIST_TORRENTS offset limit)
  with reg rej show ?thesis by (auto dest: authorized_handlers_rejection)
next
  case (GET_TORRENT_INFO i)
  with reg rej show ?thesis by (auto dest: authorized_handlers_rejection)
next
  case (ADD_MAGNET m)
  with reg rej show ?thesis by (auto dest: authorized_handlers_rejection)
next
  case (ADD_TORRENT f)
  with reg rej show ?thesis by (auto dest: authorized_handlers_rejection)
next
  case (SELECT_TORRENT_FILES i files)
  with reg rej show ?thesis by (auto dest: authorized_handlers_rejection)
next
  case (DELETE_TORRENT i)
  with reg rej show ?thesis by (auto dest: authorized_handlers_rejection)
next
  case GET_ACTIVE_TORRENT_COUNT
  with reg rej show ?thesis using handleGetActiveTorrentCount_rejection by auto
next
  case (LIST_DOWNLOADS offset limit)
  with reg rej show ?thesis by (auto dest: authorized_handlers_rejection)
next
  case (DELETE_DOWNLOAD i)
  with reg rej show ?thesis by (auto dest: authorized_handlers_rejection)
next
  case GET_HOSTS_REGEX
  with reg rej show ?thesis by (auto simp: never_rejecting_handlers)
next
  case GET_HOSTS_DOMAINS
  with reg rej show ?thesis by (auto simp: never_rejecting_handlers)
next
  case (SHOW_NOTIFICATION title m)
  with reg rej show ?thesis by (auto simp: never_rejecting_handlers)
next
  case (REPORT_DETECTED_LINKS links)
  with reg rej show ?thesis by (auto simp: never_rejecting_handlers)
next
  case GET_DETECTED_LINKS
  with reg rej show ?thesis by (auto simp: never_rejecting_handlers)
qed (use reg in simp_all)

lemma listener_rejection:
  assumes "handlers msg = Some h" and "fst (h sender env w) = Inl err"
  shows "fst (createMessageListener handlers msg sender env w)
           = Responded \<lparr> success = False, data = None, error_field = Some (message err),
                          errorCode = None \<rparr>"
  using assms by (auto simp: createMessageListener_def split: prod.splits sum.splits)

lemma listener_answers:
  assumes "handlers msg = Some h"
  shows "fst (createMessageListener handlers msg sender env w) \<noteq> NotHandled"
  using assms by (auto simp: createMessageListener_def split: prod.splits sum.splits)

lemma ex_signed_out_rejects:
  "fst (handleGetTorrentInfo ''T1'' ex_sender ex_handler_env ex_worker_signed_out)
     = Inl (Error ''Not authenticated'')"
  by (simp add: handleGetTorrentInfo_def authorizedCall_def ex_worker_signed_out_def
        getValidToken_def getAuthData_removeAuthData)

lemma ex_signed_in_rejects:
  "fst (handleGetUserProfile ex_sender ex_handler_env ex_worker_signed_in)
     = Inl (RealDebridApiError ''bad_token'' 401 (Some 8))"
proof -
  have c: "getCachedUserProfile t (clearCache ex_store_no_expiry) = None" for t
    by (simp add: getCachedUserProfile_def getCache_def clearCache_def empty_cache_def)
  have a: "getAuthData (clearCache ex_store_no_expiry) = Some (ex_auth\<lparr> expiresAt := None \<rparr>)"
    by (simp add: getAuthData_def clearCache_def ex_store_no_expiry_def setAuthData_def
          AUTH_DATA_def CACHE_def)
  have g: "getUser ex_handler_env tk = Inl (RealDebridApiError ''bad_token'' 401 (Some 8))" for tk
    by (simp add: ex_handler_env_def)
  show ?thesis
    by (simp add: handleGetUserProfile_def ex_worker_signed_in_def c getValidToken_def a
          isTokenExpired_def g)
qed

lemma ex_remote_errors: "\<forall>tk e. getUser ex_handler_env tk = Inl e \<longrightarrow> message e \<noteq> []"
  by (auto simp: ex_handler_env_def)

text \<open>
  Claim C7. Take a message whose type has a handler in the background script's registry
  (the payload is well-formed by the type of \<open>Message\<close>) and suppose the handler rejects
  with \<open>err\<close>. Then the listener answers, and its answer is the envelope with
  \<open>success = false\<close> and \<open>error = err.message\<close>; nothing is thrown past the listener and
  the answer is never undefined. The message is not empty, provided the errors with which
  the remote profile call fails carry a message: the only rejections of registered
  handlers are those of \<open>getValidToken\<close> ("Not authenticated", "Session expired. Please
  log in again.") and, in \<open>handleGetUserProfile\<close>, those of \<open>getUser\<close>. The last part
  holds for any registry: a rejection is always answered by the failure envelope.
\<close>

theorem rejected_handler_answered:
  assumes reg: "backgroundHandlers msg = Some h"
      and rej: "fst (h sender env w) = Inl err"
      and remote: "\<forall>tk e. getUser env tk = Inl e \<longrightarrow> message e \<noteq> []"
  shows "fst (createMessageListener backgroundHandlers msg sender env w)
           = Responded \<lparr> success = False, data = None, error_field = Some (message err),
                          errorCode = None \<rparr>
       \<and> message err \<noteq> []
       \<and> (\<forall>handlers' h' err'. handlers' msg = Some h' \<and> fst (h' sender env w) = Inl err' \<longrightarrow>
             fst (createMessageListener handlers' msg sender env w)
               = Responded \<lparr> success = False, data = None, error_field = Some (message err'),
                              errorCode = None \<rparr>)"
proof (intro conjI allI impI)
  show "fst (createMessageListener backgroundHandlers msg sender env w)
          = Responded \<lparr> success = False, data = None, error_field = Some (message err),
                         errorCode = None \<rparr>"
    using listener_rejection[of backgroundHandlers msg h sender env w err] reg rej by simp
  show "message err \<noteq> []"
    using registered_rejection_message[of msg h sender env w err] reg rej remote by simp
next
  fix handlers' :: "Message \<Rightarrow> (Sender \<Rightarrow> ('a, 'b) HandlerEnv_scheme \<Rightarrow> Worker
                      \<Rightarrow> (thrown + 'c MessageResponse) \<times> Worker) option"
    and h' err'
  assume "handlers' msg = Some h' \<and> fst (h' sender env w) = Inl err'"
  then show "fst (createMessageListener handlers' msg sender env w)
               = Responded \<lparr> success = False, data = None, error_field = Some (message err'),
                              errorCode = None \<rparr>"
    using listener_rejection[of handlers' msg h' sender env w err'] by simp
qed

theorem rejected_handler_answered_witness:
  "fst (createMessageListener backgroundHandlers (GET_TORRENT_INFO ''T1'') ex_sender ex_handler_env
          ex_worker_signed_out)
     = Responded \<lparr> success = False, data = None, error_field = Some ''Not authenticated'',
                    errorCode = None \<rparr>
   \<and> fst (createMessageListener backgroundHandlers GET_USER_PROFILE ex_sender ex_handler_env
            ex_worker_signed_in)
     = Responded \<lparr> success = False, data = None, error_field = Some ''bad_token'',
                    errorCode = None \<rparr>"
proof -
  have r1: "backgroundHandlers (GET_TORRENT_INFO ''T1'')
              = Some (handleGetTorrentInfo ''T1'' ::
                  Sender \<Rightarrow> string HandlerEnv \<Rightarrow> Worker \<Rightarrow> (thrown + string MessageResponse) \<times> Worker)"
    by simp
  have r2: "backgroundHandlers GET_USER_PROFILE
              = Some (handleGetUserProfile ::
                  Sender \<Rightarrow> string HandlerEnv \<Rightarrow> Worker \<Rightarrow> (thrown + string MessageResponse) \<times> Worker)"
    by simp
  from rejected_handler_answered[OF r1 ex_signed_out_rejects ex_remote_errors]
  have a: "fst (createMessageListener backgroundHandlers (GET_TORRENT_INFO ''T1'') ex_sender
                  ex_handler_env ex_worker_signed_out)
             = Responded \<lparr> success = False, data = None, error_field = Some ''Not authenticated'',
                            errorCode = None \<rparr>"
    unfolding message.simps by (rule conjunct1)
  from rejected_handler_answered[OF r2 ex_signed_in_rejects ex_remote_errors]
  have b: "fst (createMessageListener backgroundHandlers GET_USER_PROFILE ex_sender
                  ex_handler_env ex_worker_signed_in)
             = Responded \<lparr> success = False, data = None, error_field = Some ''bad_token'',
                            errorCode = None \<rparr>"
    unfolding message.simps by (rule conjunct1)
  from a b show ?thesis by simp
qed

end
